theory Spec2Isabelle
  imports Complex_Main "HOL-Library.Monad_Syntax"
begin

section \<open>Python values used by model.py\<close>

text \<open>
  Python integers are unbounded (\<open>int\<close>).  With \<open>from __future__ import division\<close>
  the operator \<open>/\<close> is true division; the quotients of model.py are small dyadic
  rationals, which a float represents exactly, so they are computed in \<open>rat\<close>.
  \<open>int(x)\<close> truncates towards zero.
\<close>

definition py_int :: "rat \<Rightarrow> int" where
  "py_int r = (if 0 \<le> r then \<lfloor>r\<rfloor> else \<lceil>r\<rceil>)"

definition py_range :: "int \<Rightarrow> nat list" where
  "py_range n = [0..<nat n]"

text \<open>\<open>"%02d" % i\<close> for \<open>i \<ge> 0\<close>: decimal digits, padded with zeros on the left to width 2.\<close>

definition digit_char :: "nat \<Rightarrow> char" where
  "digit_char d = ''0123456789'' ! d"

fun decimal :: "nat \<Rightarrow> string" where
  "decimal n = (if n < 10 then [digit_char n] else decimal (n div 10) @ [digit_char (n mod 10)])"

definition fmt_02d :: "nat \<Rightarrow> string" where
  "fmt_02d i = replicate (2 - length (decimal i)) (CHR ''0'') @ decimal i"

section \<open>Tensors\<close>

subsection \<open>Complex tensors of the sensing domain\<close>

text \<open>
  In \<open>unroll_ista\<close> the k-space data, the mask and the images are combined only by
  TensorFlow's elementwise operators, which broadcast their operands to a common shape.
  A complex tensor is therefore modelled by its broadcast view: a function from a location
  to the value there.  Complex64 arithmetic is idealised as arithmetic in \<open>complex\<close>.
\<close>

type_synonym 'p ctensor = "'p \<Rightarrow> complex"

definition cmul :: "'p ctensor \<Rightarrow> 'p ctensor \<Rightarrow> 'p ctensor" where
  "cmul a b = (\<lambda>p. a p * b p)"

definition cadd :: "'p ctensor \<Rightarrow> 'p ctensor \<Rightarrow> 'p ctensor" where
  "cadd a b = (\<lambda>p. a p + b p)"

definition csub :: "'p ctensor \<Rightarrow> 'p ctensor \<Rightarrow> 'p ctensor" where
  "csub a b = (\<lambda>p. a p - b p)"

text \<open>\<open>1 - mask\<close>: a Python scalar minus a tensor.\<close>

definition crsub :: "complex \<Rightarrow> 'p ctensor \<Rightarrow> 'p ctensor" where
  "crsub c a = (\<lambda>p. c - a p)"

subsection \<open>Feature tensors of the prior network\<close>

text \<open>
  The network functions work on real tensors of rank 4, \<open>(batch, z, y, channels)\<close> or
  \<open>(batch, channels, z, y)\<close>.  A feature tensor is its shape and its entries; only the
  entries at indices inside the shape are meaningful.
\<close>

type_synonym ix = "nat \<times> nat \<times> nat \<times> nat"

record ftensor =
  shape :: ix
  elem :: "ix \<Rightarrow> real"

datatype data_format = channels_last | channels_first

fun get_ax :: "nat \<Rightarrow> ix \<Rightarrow> nat" where
  "get_ax a (i0, i1, i2, i3) =
     (if a = 0 then i0 else if a = 1 then i1 else if a = 2 then i2 else i3)"

fun set_ax :: "nat \<Rightarrow> nat \<Rightarrow> ix \<Rightarrow> ix" where
  "set_ax a v (i0, i1, i2, i3) =
     (if a = 0 then (v, i1, i2, i3) else if a = 1 then (i0, v, i2, i3)
      else if a = 2 then (i0, i1, v, i3) else (i0, i1, i2, v))"

fun in_shape :: "ix \<Rightarrow> ix \<Rightarrow> bool" where
  "in_shape (n0, n1, n2, n3) (i0, i1, i2, i3) = (i0 < n0 \<and> i1 < n1 \<and> i2 < n2 \<and> i3 < n3)"

definition axis_z :: "data_format \<Rightarrow> nat" where
  "axis_z fmt = (if fmt = channels_last then 1 else 2)"

definition axis_y :: "data_format \<Rightarrow> nat" where
  "axis_y fmt = (if fmt = channels_last then 2 else 3)"

definition axis_c :: "data_format \<Rightarrow> nat" where
  "axis_c fmt = (if fmt = channels_last then 3 else 1)"

text \<open>The index of batch \<open>b\<close>, channel \<open>c\<close>, row \<open>z\<close>, column \<open>y\<close> in a layout.\<close>

definition phys :: "data_format \<Rightarrow> nat \<Rightarrow> nat \<Rightarrow> nat \<Rightarrow> nat \<Rightarrow> ix" where
  "phys fmt b c z y = (if fmt = channels_last then (b, z, y, c) else (b, c, z, y))"

subsection \<open>TensorFlow primitives\<close>

text \<open>
  Elementwise addition broadcasts: two extents are compatible when they are equal or one
  of them is 1; otherwise TensorFlow raises, which is \<open>None\<close>.
\<close>

definition compat :: "nat \<Rightarrow> nat \<Rightarrow> bool" where
  "compat m n = (m = n \<or> m = 1 \<or> n = 1)"

definition bdim :: "nat \<Rightarrow> nat \<Rightarrow> nat" where
  "bdim m n = (if m = 1 then n else m)"

definition bix :: "nat \<Rightarrow> nat \<Rightarrow> nat" where
  "bix n i = (if n = 1 then 0 else i)"

fun bshape :: "ix \<Rightarrow> ix \<Rightarrow> ix option" where
  "bshape (m0, m1, m2, m3) (n0, n1, n2, n3) =
     (if compat m0 n0 \<and> compat m1 n1 \<and> compat m2 n2 \<and> compat m3 n3
      then Some (bdim m0 n0, bdim m1 n1, bdim m2 n2, bdim m3 n3) else None)"

fun bview :: "ix \<Rightarrow> ix \<Rightarrow> ix" where
  "bview (n0, n1, n2, n3) (i0, i1, i2, i3) = (bix n0 i0, bix n1 i1, bix n2 i2, bix n3 i3)"

definition tf_add :: "ftensor \<Rightarrow> ftensor \<Rightarrow> ftensor option" where
  "tf_add x y =
     (case bshape (shape x) (shape y) of
        None \<Rightarrow> None
      | Some s \<Rightarrow> Some \<lparr>shape = s,
                       elem = (\<lambda>i. elem x (bview (shape x) i) + elem y (bview (shape y) i))\<rparr>)"

text \<open>A scalar (a Python float, or a variable of shape \<open>[1]\<close>) times a tensor.\<close>

definition tf_scale :: "real \<Rightarrow> ftensor \<Rightarrow> ftensor" where
  "tf_scale t x = \<lparr>shape = shape x, elem = (\<lambda>i. t * elem x i)\<rparr>"

definition tf_relu :: "ftensor \<Rightarrow> ftensor" where
  "tf_relu x = \<lparr>shape = shape x, elem = (\<lambda>i. max 0 (elem x i))\<rparr>"

text \<open>\<open>tf.transpose(x, [p0, p1, p2, p3])\<close>: axis \<open>k\<close> of the result is axis \<open>pk\<close> of \<open>x\<close>.\<close>

fun tf_transpose :: "ftensor \<Rightarrow> ix \<Rightarrow> ftensor" where
  "tf_transpose x (p0, p1, p2, p3) =
     \<lparr>shape = (get_ax p0 (shape x), get_ax p1 (shape x), get_ax p2 (shape x), get_ax p3 (shape x)),
      elem = (\<lambda>(i0, i1, i2, i3).
                elem x (set_ax p0 i0 (set_ax p1 i1 (set_ax p2 i2 (set_ax p3 i3 (0, 0, 0, 0))))))\<rparr>"

text \<open>\<open>tf.concat([x, y], axis=1)\<close>: the other extents must agree.\<close>

definition tf_concat1 :: "ftensor \<Rightarrow> ftensor \<Rightarrow> ftensor option" where
  "tf_concat1 x y =
     (if set_ax 1 0 (shape x) = set_ax 1 0 (shape y)
      then Some \<lparr>shape = set_ax 1 (get_ax 1 (shape x) + get_ax 1 (shape y)) (shape x),
                 elem = (\<lambda>i. if get_ax 1 i < get_ax 1 (shape x) then elem x i
                              else elem y (set_ax 1 (get_ax 1 i - get_ax 1 (shape x)) i))\<rparr>
      else None)"

text \<open>
  The slice \<open>start:stop\<close> along one axis: a negative bound counts from the end and every
  bound is clamped to the extent.
\<close>

definition slice_bound :: "nat \<Rightarrow> int \<Rightarrow> nat" where
  "slice_bound n i = (if i < 0 then nat (max 0 (int n + i)) else min n (nat i))"

definition slice_axis :: "nat \<Rightarrow> int \<Rightarrow> int \<Rightarrow> ftensor \<Rightarrow> ftensor" where
  "slice_axis ax start stop x =
     (let n = get_ax ax (shape x);
          a = slice_bound n start;
          b = slice_bound n stop
      in \<lparr>shape = set_ax ax (b - a) (shape x),
          elem = (\<lambda>i. elem x (set_ax ax (get_ax ax i + a) i))\<rparr>)"

text \<open>
  The learned variables of one \<open>tf.layers.conv2d\<close> layer: the kernel, indexed by row
  offset, column offset, input channel and output channel, and the bias.
\<close>

record conv_layer =
  kernel :: "nat \<Rightarrow> nat \<Rightarrow> nat \<Rightarrow> nat \<Rightarrow> real"
  bias :: "nat \<Rightarrow> real"

text \<open>Reading outside the spatial extent gives the zero of \<open>padding='same'\<close>.\<close>

definition read_zero :: "ftensor \<Rightarrow> data_format \<Rightarrow> nat \<Rightarrow> nat \<Rightarrow> int \<Rightarrow> int \<Rightarrow> real" where
  "read_zero x fmt b c z y =
     (if 0 \<le> z \<and> z < int (get_ax (axis_z fmt) (shape x)) \<and>
         0 \<le> y \<and> y < int (get_ax (axis_y fmt) (shape x))
      then elem x (phys fmt b c (nat z) (nat y)) else 0)"

text \<open>
  The output tensor of a same-padding convolution with stride 1: it keeps the spatial
  extent; the window of output position \<open>z\<close> starts at \<open>z - (k - 1) div 2\<close>.
\<close>

definition conv2d_same ::
  "conv_layer \<Rightarrow> ftensor \<Rightarrow> int \<Rightarrow> int \<Rightarrow> bool \<Rightarrow> data_format \<Rightarrow> ftensor" where
  "conv2d_same cl x filters kernel_size use_bias fmt =
     \<lparr>shape = set_ax (axis_c fmt) (nat filters) (shape x),
      elem = (\<lambda>i.
        let b = get_ax 0 i;
            co = get_ax (axis_c fmt) i;
            z = int (get_ax (axis_z fmt) i);
            y = int (get_ax (axis_y fmt) i);
            k = nat kernel_size;
            pad_top = (kernel_size - 1) div 2
        in (\<Sum>dz\<leftarrow>[0..<k]. \<Sum>dy\<leftarrow>[0..<k]. \<Sum>ci\<leftarrow>[0..<get_ax (axis_c fmt) (shape x)].
              read_zero x fmt b ci (z + int dz - pad_top) (y + int dy - pad_top)
                * kernel cl dz dy ci co)
           + (if use_bias then bias cl co else 0))\<rparr>"

text \<open>
  \<open>tf.layers.conv2d(x, filters, kernel_size, padding='same', use_bias, data_format)\<close>:
  the layer raises when \<open>filters\<close> is not positive, which is \<open>None\<close>; otherwise it returns
  the convolution.
\<close>

definition tf_conv2d_same ::
  "conv_layer \<Rightarrow> ftensor \<Rightarrow> int \<Rightarrow> int \<Rightarrow> bool \<Rightarrow> data_format \<Rightarrow> ftensor option" where
  "tf_conv2d_same cl x filters kernel_size use_bias fmt =
     (if filters < 1 then None else Some (conv2d_same cl x filters kernel_size use_bias fmt))"

text \<open>
  One \<open>tf.layers.batch_normalization\<close> layer keeps the shape of its input; its values
  depend on the layer's variables, on the axis, on the training flag and (in training
  mode) on the whole input, so a layer is given by the function that computes them.
\<close>

type_synonym bn_layer = "int \<Rightarrow> bool \<Rightarrow> ftensor \<Rightarrow> ix \<Rightarrow> real"

definition tf_batch_normalization :: "bn_layer \<Rightarrow> ftensor \<Rightarrow> int \<Rightarrow> bool \<Rightarrow> ftensor" where
  "tf_batch_normalization bn x axis training = \<lparr>shape = shape x, elem = bn axis training x\<rparr>"

subsection \<open>utils.tfmri\<close>

text \<open>
  Modelled from the spec: \<open>utils.tfmri.circular_pad\<close> is not among the sources.  It
  extends the chosen axis by \<open>pad\<close> entries on each side, wrapping values from the
  opposite edge (periodic boundary).
\<close>

definition circular_pad :: "ftensor \<Rightarrow> int \<Rightarrow> nat \<Rightarrow> ftensor" where
  "circular_pad x pad axis =
     (let n = get_ax axis (shape x)
      in \<lparr>shape = set_ax axis (nat (int n + 2 * pad)) (shape x),
          elem = (\<lambda>i. elem x (set_ax axis (nat ((int (get_ax axis i) - pad) mod int n)) i))\<rparr>)"

text \<open>
  Modelled from the spec: \<open>utils.tfmri.kspace_mask\<close> is not among the sources.  The mask
  is derived from the nonzero locations of the k-space data.
\<close>

definition kspace_mask :: "'q ctensor \<Rightarrow> 'q ctensor" where
  "kspace_mask ks = (\<lambda>q. if ks q \<noteq> 0 then 1 else 0)"

text \<open>
  The sensing operator and the channel packing of \<open>utils.tfmri\<close> are not among the
  sources either; they are parameters of the solver.  \<open>'p\<close> are the image locations,
  \<open>'q\<close> the k-space locations and \<open>'s\<close> the sensitivity maps.
\<close>

record ('p, 'q, 's) tfmri =
  model_forward :: "'p ctensor \<Rightarrow> 's \<Rightarrow> 'q ctensor"
  model_transpose :: "'q ctensor \<Rightarrow> 's \<Rightarrow> 'p ctensor"
  complex_to_channels :: "'p ctensor \<Rightarrow> ftensor"
  channels_to_complex :: "ftensor \<Rightarrow> 'p ctensor"

text \<open>
  The convolution that the specification describes for circular mode: a same-padding
  convolution whose window wraps around the spatial extent (periodic boundary).
\<close>

definition conv2d_periodic ::
  "conv_layer \<Rightarrow> ftensor \<Rightarrow> int \<Rightarrow> int \<Rightarrow> bool \<Rightarrow> data_format \<Rightarrow> ftensor" where
  "conv2d_periodic cl x filters kernel_size use_bias fmt =
     \<lparr>shape = set_ax (axis_c fmt) (nat filters) (shape x),
      elem = (\<lambda>i.
        let b = get_ax 0 i;
            co = get_ax (axis_c fmt) i;
            z = int (get_ax (axis_z fmt) i);
            y = int (get_ax (axis_y fmt) i);
            k = nat kernel_size;
            pad_top = (kernel_size - 1) div 2;
            nz = int (get_ax (axis_z fmt) (shape x));
            ny = int (get_ax (axis_y fmt) (shape x))
        in (\<Sum>dz\<leftarrow>[0..<k]. \<Sum>dy\<leftarrow>[0..<k]. \<Sum>ci\<leftarrow>[0..<get_ax (axis_c fmt) (shape x)].
              elem x (phys fmt b ci (nat ((z + int dz - pad_top) mod nz))
                        (nat ((y + int dy - pad_top) mod ny)))
                * kernel cl dz dy ci co)
           + (if use_bias then bias cl co else 0))\<rparr>"

section \<open>The network functions of model.py\<close>

definition priv_batch_norm :: "bn_layer \<Rightarrow> ftensor \<Rightarrow> data_format \<Rightarrow> bool \<Rightarrow> ftensor" where
  "priv_batch_norm bn tf_input fmt training =
     tf_batch_normalization bn tf_input (if fmt = channels_first then 1 else - 1) training"

definition priv_batch_norm_relu ::
  "bn_layer \<Rightarrow> ftensor \<Rightarrow> data_format \<Rightarrow> bool \<Rightarrow> bool \<Rightarrow> ftensor" where
  "priv_batch_norm_relu bn tf_input fmt batchnorm training =
     tf_relu (if batchnorm then priv_batch_norm bn tf_input fmt training else tf_input)"

text \<open>
  The pad widths: \<open>int((kernel_size - 0.5) / 2)\<close> in \<open>_conv2d\<close>,
  \<open>int((2 * (kernel_size - 1) + 0.5) / 2)\<close> in \<open>_res_block\<close> and
  \<open>int((num_conv2d * (kernel_size - 1) + 0.5) / 2)\<close> with
  \<open>num_conv2d = num_blocks * 2 + 1\<close> in \<open>prior_grad_res_net\<close>.
\<close>

definition pad_conv2d :: "int \<Rightarrow> int" where
  "pad_conv2d kernel_size = py_int ((of_int kernel_size - 1 / 2) / 2)"

definition pad_res_block :: "int \<Rightarrow> int" where
  "pad_res_block kernel_size = py_int ((2 * (of_int kernel_size - 1) + 1 / 2) / 2)"

definition pad_prior_net :: "int \<Rightarrow> int \<Rightarrow> int" where
  "pad_prior_net num_blocks kernel_size =
     (let num_conv2d = num_blocks * 2 + 1
      in py_int ((of_int num_conv2d * (of_int kernel_size - 1) + 1 / 2) / 2))"

text \<open>The block \<open>with tf.name_scope("circular_pad")\<close>: both spatial axes are padded.\<close>

definition circular_pad_zy :: "ftensor \<Rightarrow> int \<Rightarrow> data_format \<Rightarrow> ftensor" where
  "circular_pad_zy x pad fmt = circular_pad (circular_pad x pad (axis_z fmt)) pad (axis_y fmt)"

text \<open>The crop \<open>t[:, a:b, c:d, :]\<close> (channels last) or \<open>t[:, :, a:b, c:d]\<close>.\<close>

definition crop :: "data_format \<Rightarrow> int \<Rightarrow> int \<Rightarrow> int \<Rightarrow> int \<Rightarrow> ftensor \<Rightarrow> ftensor" where
  "crop fmt a b c d t =
     (if fmt = channels_last then slice_axis 2 c d (slice_axis 1 a b t)
      else slice_axis 3 c d (slice_axis 2 a b t))"

definition priv_conv2d ::
  "conv_layer \<Rightarrow> ftensor \<Rightarrow> int \<Rightarrow> int \<Rightarrow> data_format \<Rightarrow> bool \<Rightarrow> bool
     \<Rightarrow> ftensor option" where
  "priv_conv2d cl tf_input num_features kernel_size fmt circular use_bias =
     (let shape_z = int (get_ax (axis_z fmt) (shape tf_input));
          shape_y = int (get_ax (axis_y fmt) (shape tf_input));
          pad = pad_conv2d kernel_size;
          padded = (if circular \<and> pad > 0 then circular_pad_zy tf_input pad fmt
                    else tf_input)
      in do {
           tf_output \<leftarrow> tf_conv2d_same cl padded num_features kernel_size use_bias fmt;
           Some (if circular \<and> pad > 0
                 then crop fmt pad (shape_z + pad) pad (shape_y + pad) tf_output
                 else tf_output)
         })"

text \<open>The layers of one residual block, in the order in which the block creates them.\<close>

record block_params =
  b_proj :: conv_layer
  b_bn1 :: bn_layer
  b_conv1 :: conv_layer
  b_bn2 :: bn_layer
  b_conv2 :: conv_layer

text \<open>The shortcut path of \<open>_res_block\<close>.\<close>

definition res_shortcut ::
  "block_params \<Rightarrow> ftensor \<Rightarrow> int \<Rightarrow> data_format \<Rightarrow> bool \<Rightarrow> ftensor option" where
  "res_shortcut bp net_input num_features fmt batchnorm =
     (let shape_c = int (get_ax (axis_c fmt) (shape net_input))
      in if num_features \<noteq> shape_c
         then priv_conv2d (b_proj bp) net_input num_features 1 fmt False (\<not> batchnorm)
         else Some net_input)"

text \<open>The main path of \<open>_res_block\<close>, from \<open>net_cur = net_input\<close> to the crop.\<close>

definition res_main ::
  "block_params \<Rightarrow> ftensor \<Rightarrow> int \<Rightarrow> int \<Rightarrow> data_format \<Rightarrow> bool \<Rightarrow> bool \<Rightarrow> bool
     \<Rightarrow> ftensor option" where
  "res_main bp net_input num_features kernel_size fmt circular batchnorm training =
     (let shape_z = int (get_ax (axis_z fmt) (shape net_input));
          shape_y = int (get_ax (axis_y fmt) (shape net_input));
          pad = pad_res_block kernel_size;
          net1 = (if circular then circular_pad_zy net_input pad fmt else net_input);
          net2 = priv_batch_norm_relu (b_bn1 bp) net1 fmt batchnorm training
      in do {
           net3 \<leftarrow> priv_conv2d (b_conv1 bp) net2 num_features kernel_size fmt False
                     (\<not> batchnorm);
           net5 \<leftarrow> priv_conv2d (b_conv2 bp)
                     (priv_batch_norm_relu (b_bn2 bp) net3 fmt batchnorm training)
                     num_features kernel_size fmt False (\<not> batchnorm);
           Some (if circular then crop fmt pad (pad + shape_z) pad (pad + shape_y) net5
                 else net5)
         })"

definition priv_res_block ::
  "block_params \<Rightarrow> ftensor \<Rightarrow> int \<Rightarrow> int \<Rightarrow> data_format \<Rightarrow> bool \<Rightarrow> bool \<Rightarrow> bool
     \<Rightarrow> ftensor option" where
  "priv_res_block bp net_input num_features kernel_size fmt circular batchnorm training =
     do {
       shortcut \<leftarrow> res_shortcut bp net_input num_features fmt batchnorm;
       net_cur \<leftarrow> res_main bp net_input num_features kernel_size fmt circular batchnorm
                   training;
       tf_add net_cur shortcut
     }"

text \<open>The layers of one prior network; block \<open>j\<close> of the loop uses \<open>n_blocks j\<close>.\<close>

record net_params =
  n_proj :: conv_layer
  n_blocks :: "nat \<Rightarrow> block_params"
  n_bn :: bn_layer
  n_conv :: conv_layer

text \<open>The loop \<open>for _ in range(num_blocks): net = _res_block(net, ..., circular=False)\<close>.\<close>

fun res_blocks ::
  "net_params \<Rightarrow> nat list \<Rightarrow> ftensor \<Rightarrow> int \<Rightarrow> int \<Rightarrow> data_format \<Rightarrow> bool \<Rightarrow> bool
     \<Rightarrow> ftensor option" where
  "res_blocks np [] net num_features kernel_size fmt batchnorm training = Some net"
| "res_blocks np (j # js) net num_features kernel_size fmt batchnorm training =
     (case priv_res_block (n_blocks np j) net num_features kernel_size fmt False batchnorm
             training of
        None \<Rightarrow> None
      | Some net' \<Rightarrow> res_blocks np js net' num_features kernel_size fmt batchnorm training)"

definition prior_grad_res_net ::
  "net_params \<Rightarrow> ftensor \<Rightarrow> int \<Rightarrow> int \<Rightarrow> int \<Rightarrow> bool \<Rightarrow> data_format \<Rightarrow> bool \<Rightarrow> bool
     \<Rightarrow> bool \<Rightarrow> int option \<Rightarrow> (ftensor \<times> ftensor) option" where
  "prior_grad_res_net np curr_x num_features kernel_size num_blocks circular fmt do_residual
       batchnorm training num_features_out_opt =
     (let num_features_in = int (get_ax (axis_c fmt) (shape curr_x));
          num_features_out = (case num_features_out_opt of
                                None \<Rightarrow> num_features_in | Some n \<Rightarrow> n);
          shape_z = int (get_ax (axis_z fmt) (shape curr_x));
          shape_y = int (get_ax (axis_y fmt) (shape curr_x));
          pad = pad_prior_net num_blocks kernel_size;
          net0 = (if circular then circular_pad_zy curr_x pad fmt else curr_x)
      in do {
           shortcut \<leftarrow> (if do_residual \<and> num_features_in \<noteq> num_features_out
                        then priv_conv2d (n_proj np) curr_x num_features_out 1 fmt False
                               (\<not> batchnorm)
                        else Some curr_x);
           net_dense \<leftarrow> res_blocks np (py_range num_blocks) net0 num_features kernel_size fmt
                          batchnorm training;
           net2 \<leftarrow> priv_conv2d (n_conv np)
                     (priv_batch_norm_relu (n_bn np) net_dense fmt batchnorm training)
                     num_features_out kernel_size fmt False (\<not> batchnorm);
           (let net3 = (if circular
                        then crop fmt pad (pad + shape_z) pad (pad + shape_y) net2
                        else net2);
                net_dense' = (if circular
                              then crop fmt pad (pad + shape_z) pad (pad + shape_y) net_dense
                              else net_dense)
            in if do_residual
               then do { net \<leftarrow> tf_add net3 shortcut; Some (net, net_dense') }
               else Some (net3, net_dense'))
         })"

section \<open>The unrolled solver\<close>

text \<open>
  The keyword arguments of \<open>unroll_ista\<close> (the variable-scope prefix \<open>scope\<close> only names
  things and is left out).
\<close>

record 'q config =
  num_grad_steps :: int
  resblock_num_features :: int
  resblock_num_blocks :: int
  resblock_share :: bool
  training :: bool
  mask_output :: "'q ctensor option"
  hard_projection :: bool
  do_dense :: bool
  batchnorm :: bool
  circular :: bool
  fix_update :: bool

definition default_config :: "'q config" where
  "default_config =
     \<lparr>num_grad_steps = 4, resblock_num_features = 128, resblock_num_blocks = 3,
      resblock_share = False, training = True, mask_output = Some (\<lambda>q. 1),
      hard_projection = True, do_dense = False, batchnorm = True, circular = True,
      fix_update = False\<rparr>"

text \<open>
  The variables that one iteration scope holds: the step size \<open>t\<close> of the scope
  \<open>update\<close> and the layers of the prior network of the scope \<open>prox\<close>.  The variable store
  maps the name of an iteration scope to its variables.
\<close>

record iter_vars =
  t_var :: real
  prior :: net_params

type_synonym var_store = "string \<Rightarrow> iter_vars"

definition iter_name :: "nat \<Rightarrow> string" where
  "iter_name i_step = ''iter_'' @ fmt_02d i_step"

definition scope_name :: "'q config \<Rightarrow> nat \<Rightarrow> string" where
  "scope_name cfg i_step = (if resblock_share cfg then ''iter'' else iter_name i_step)"

text \<open>The variables \<open>ks_k\<close>, \<open>im_k\<close> and \<open>im_dense\<close> that the loop updates.\<close>

record ('p, 'q) core =
  ks_k :: "'q ctensor"
  im_k :: "'p ctensor"
  im_dense :: "ftensor option"

text \<open>The block \<open>with tf.variable_scope("update")\<close>.\<close>

definition update_block ::
  "('p, 'q, 's) tfmri \<Rightarrow> var_store \<Rightarrow> 'q config \<Rightarrow> 'q ctensor \<Rightarrow> 's \<Rightarrow> 'p ctensor
     \<Rightarrow> nat \<Rightarrow> 'p ctensor \<Rightarrow> ('q ctensor \<times> ftensor) option" where
  "update_block ops vars cfg msk sensemap im_0 i_step im_k_in =
     (let im_k_orig = im_k_in;
          ks = cmul msk (model_forward ops im_k_in sensemap);
          im1 = model_transpose ops ks sensemap;
          im2 = complex_to_channels ops (csub im1 im_0);
          im_k_orig' = complex_to_channels ops im_k_orig;
          t_update = (if fix_update cfg then - 2 else t_var (vars (scope_name cfg i_step)))
      in case tf_add im_k_orig' (tf_scale t_update im2) of
           None \<Rightarrow> None
         | Some im3 \<Rightarrow> Some (ks, im3))"

text \<open>The block \<open>with tf.variable_scope("prox")\<close>.\<close>

definition prox_block ::
  "('p, 'q, 's) tfmri \<Rightarrow> var_store \<Rightarrow> 'q config \<Rightarrow> nat \<Rightarrow> ftensor \<Rightarrow> ftensor option
     \<Rightarrow> ('p ctensor \<times> ftensor option) option" where
  "prox_block ops vars cfg i_step im dense =
     (let num_channels_out = int (get_ax 3 (shape im));
          im1 = tf_transpose im (0, 3, 1, 2)
      in do {
           im2 \<leftarrow> (case dense of None \<Rightarrow> Some im1 | Some d \<Rightarrow> tf_concat1 im1 d);
           (im3, im_dense_k) \<leftarrow>
             prior_grad_res_net (prior (vars (scope_name cfg i_step))) im2
               (resblock_num_features cfg) 3 (resblock_num_blocks cfg) (circular cfg)
               channels_first True (batchnorm cfg) (training cfg) (Some num_channels_out);
           dense' \<leftarrow>
             (if do_dense cfg
              then (case dense of
                      Some d \<Rightarrow> map_option Some (tf_concat1 d im_dense_k)
                    | None \<Rightarrow> Some (Some im_dense_k))
              else Some dense);
           Some (channels_to_complex ops (tf_transpose im3 (0, 2, 3, 1)), dense')
         })"

text \<open>The body of the loop up to \<open>tf.identity(im_k, name="image")\<close>.\<close>

definition ista_body ::
  "('p, 'q, 's) tfmri \<Rightarrow> var_store \<Rightarrow> 'q config \<Rightarrow> 'q ctensor \<Rightarrow> 's \<Rightarrow> 'p ctensor
     \<Rightarrow> nat \<Rightarrow> ('p, 'q) core \<Rightarrow> ('p, 'q) core option" where
  "ista_body ops vars cfg msk sensemap im_0 i_step c =
     do {
       (ks, im) \<leftarrow> update_block ops vars cfg msk sensemap im_0 i_step (im_k c);
       (im', dense') \<leftarrow> prox_block ops vars cfg i_step im (im_dense c);
       Some \<lparr>ks_k = ks, im_k = im', im_dense = dense'\<rparr>
     }"

text \<open>
  The loop \<open>for i_step in range(num_grad_steps)\<close>: the body, then
  \<open>summary_iter[iter_name] = im_k\<close>.
\<close>

fun ista_loop ::
  "(nat \<Rightarrow> ('p, 'q) core \<Rightarrow> ('p, 'q) core option) \<Rightarrow> nat list
     \<Rightarrow> ('p, 'q) core \<times> (string \<rightharpoonup> 'p ctensor)
     \<Rightarrow> (('p, 'q) core \<times> (string \<rightharpoonup> 'p ctensor)) option" where
  "ista_loop body [] st = Some st"
| "ista_loop body (i_step # steps) (c, summary_iter) =
     (case body i_step c of
        None \<Rightarrow> None
      | Some c' \<Rightarrow> ista_loop body steps (c', summary_iter(iter_name i_step \<mapsto> im_k c')))"

text \<open>The statements after the loop.\<close>

definition finalize ::
  "('p, 'q, 's) tfmri \<Rightarrow> 'q config \<Rightarrow> 'q ctensor \<Rightarrow> 's \<Rightarrow> 'q ctensor \<Rightarrow> 'p ctensor
     \<Rightarrow> 'p ctensor \<times> 'q ctensor" where
  "finalize ops cfg msk sensemap ks_0 im =
     (let ks = model_forward ops im sensemap
      in if hard_projection cfg
         then (let ks1 = cadd (cmul msk ks_0) (cmul (crsub 1 msk) ks);
                   ks2 = (case mask_output cfg of None \<Rightarrow> ks1 | Some m \<Rightarrow> cmul ks1 m)
               in (model_transpose ops ks2 sensemap, ks2))
         else (im, ks))"

text \<open>\<open>if mask is None: mask = utils.tfmri.kspace_mask(ks_input, dtype=tf.complex64)\<close>.\<close>

definition resolve_mask :: "'q ctensor \<Rightarrow> 'q ctensor option \<Rightarrow> 'q ctensor" where
  "resolve_mask ks_input mask_opt =
     (case mask_opt of None \<Rightarrow> kspace_mask ks_input | Some m \<Rightarrow> m)"

text \<open>
  The state before the loop: \<open>ks_0 = mask * ks_input\<close>, the anchor image
  \<open>im_0 = model_transpose(ks_0, sensemap)\<close>, and no dense features.
\<close>

definition ista_init ::
  "('p, 'q, 's) tfmri \<Rightarrow> 'q ctensor \<Rightarrow> 's \<Rightarrow> 'q ctensor option \<Rightarrow> ('p, 'q) core" where
  "ista_init ops ks_input sensemap mask_opt =
     (let msk = resolve_mask ks_input mask_opt;
          ks_0 = cmul msk ks_input;
          im_0 = model_transpose ops ks_0 sensemap
      in \<lparr>ks_k = ks_0, im_k = im_0, im_dense = None\<rparr>)"

text \<open>The loop body with the mask and the anchor image of this call.\<close>

definition ista_step ::
  "('p, 'q, 's) tfmri \<Rightarrow> var_store \<Rightarrow> 'q ctensor \<Rightarrow> 's \<Rightarrow> 'q config \<Rightarrow> 'q ctensor option
     \<Rightarrow> nat \<Rightarrow> ('p, 'q) core \<Rightarrow> ('p, 'q) core option" where
  "ista_step ops vars ks_input sensemap cfg mask_opt =
     (let msk = resolve_mask ks_input mask_opt;
          ks_0 = cmul msk ks_input;
          im_0 = model_transpose ops ks_0 sensemap
      in ista_body ops vars cfg msk sensemap im_0)"

text \<open>The initialisation and the loop over the given steps.\<close>

definition ista_run ::
  "('p, 'q, 's) tfmri \<Rightarrow> var_store \<Rightarrow> 'q ctensor \<Rightarrow> 's \<Rightarrow> 'q config \<Rightarrow> 'q ctensor option
     \<Rightarrow> nat list \<Rightarrow> (('p, 'q) core \<times> (string \<rightharpoonup> 'p ctensor)) option" where
  "ista_run ops vars ks_input sensemap cfg mask_opt steps =
     ista_loop (ista_step ops vars ks_input sensemap cfg mask_opt) steps
       (ista_init ops ks_input sensemap mask_opt, Map.empty)"

definition unroll_ista ::
  "('p, 'q, 's) tfmri \<Rightarrow> var_store \<Rightarrow> 'q ctensor \<Rightarrow> 's \<Rightarrow> 'q config \<Rightarrow> 'q ctensor option
     \<Rightarrow> ('p ctensor \<times> 'q ctensor \<times> (string \<rightharpoonup> 'p ctensor)) option" where
  "unroll_ista ops vars ks_input sensemap cfg mask_opt =
     (let msk = resolve_mask ks_input mask_opt;
          ks_0 = cmul msk ks_input
      in case ista_run ops vars ks_input sensemap cfg mask_opt (py_range (num_grad_steps cfg)) of
           None \<Rightarrow> None
         | Some (c, summary_iter) \<Rightarrow>
             (let (im, ks) = finalize ops cfg msk sensemap ks_0 (im_k c)
              in Some (im, ks, summary_iter)))"

text \<open>
  The loop of \<open>unroll_ista\<close> with the statement \<open>summary_iter[iter_name] = im_k\<close> removed,
  for the claim that the recorded entries are not read.
\<close>

fun ista_loop_unrecorded ::
  "(nat \<Rightarrow> ('p, 'q) core \<Rightarrow> ('p, 'q) core option) \<Rightarrow> nat list \<Rightarrow> ('p, 'q) core
     \<Rightarrow> ('p, 'q) core option" where
  "ista_loop_unrecorded body [] c = Some c"
| "ista_loop_unrecorded body (i_step # steps) c =
     (case body i_step c of
        None \<Rightarrow> None
      | Some c' \<Rightarrow> ista_loop_unrecorded body steps c')"

text \<open>The factor that \<open>ks_k * mask_output\<close> applies at a location (none for \<open>None\<close>).\<close>

definition output_scale :: "'q config \<Rightarrow> 'q \<Rightarrow> complex" where
  "output_scale cfg q = (case mask_output cfg of None \<Rightarrow> 1 | Some m \<Rightarrow> m q)"

section \<open>A small instance for evaluation\<close>

text \<open>
  One pixel seen by two coils: the 1-point Fourier transform is the identity, so the
  forward operator weights the pixel by each coil's sensitivity and the adjoint sums the
  conjugate-weighted coil values.  The image locations are \<open>unit\<close>, the k-space locations
  are the two coils.
\<close>

definition coil_ops :: "(unit, bool, bool \<Rightarrow> complex) tfmri" where
  "coil_ops =
     \<lparr>model_forward = (\<lambda>im s q. s q * im ()),
      model_transpose = (\<lambda>ks s p. cnj (s True) * ks True + cnj (s False) * ks False),
      complex_to_channels =
        (\<lambda>im. \<lparr>shape = (1, 1, 1, 2),
                elem = (\<lambda>(b, z, y, c). if c = 0 then Re (im ()) else Im (im ()))\<rparr>),
      channels_to_complex = (\<lambda>t p. Complex (elem t (0, 0, 0, 0)) (elem t (0, 0, 0, 1)))\<rparr>"

definition zero_conv :: conv_layer where
  "zero_conv = \<lparr>kernel = (\<lambda>dz dy ci co. 0), bias = (\<lambda>co. 0)\<rparr>"

definition id_bn :: bn_layer where
  "id_bn = (\<lambda>axis training x. elem x)"

definition zero_block :: block_params where
  "zero_block = \<lparr>b_proj = zero_conv, b_bn1 = id_bn, b_conv1 = zero_conv, b_bn2 = id_bn,
                 b_conv2 = zero_conv\<rparr>"

definition zero_vars :: var_store where
  "zero_vars = (\<lambda>name. \<lparr>t_var = - 2,
                          prior = \<lparr>n_proj = zero_conv, n_blocks = (\<lambda>j. zero_block),
                                   n_bn = id_bn, n_conv = zero_conv\<rparr>\<rparr>)"

text \<open>
  Coil \<open>True\<close> is sampled and coil \<open>False\<close> is not; both sensitivities are 1; one
  feature channel keeps the evaluation of the prior network small.
\<close>

definition demo_mask :: "bool ctensor" where
  "demo_mask = (\<lambda>q. if q then 1 else 0)"

definition demo_kspace :: "bool ctensor" where
  "demo_kspace = (\<lambda>q. if q then 3 else 5)"

definition demo_sens :: "bool \<Rightarrow> complex" where
  "demo_sens = (\<lambda>q. 1)"

definition demo_config :: "int \<Rightarrow> int \<Rightarrow> bool config" where
  "demo_config steps blocks =
     default_config\<lparr>num_grad_steps := steps, resblock_num_features := 1,
                    resblock_num_blocks := blocks\<rparr>"

text \<open>
  Variables with a learned step size that differs from the fixed one, and sensitivity 2 on
  both coils, for which the data-fidelity gradient of the first iteration is not zero.
\<close>

definition demo_vars :: var_store where
  "demo_vars = (\<lambda>name. \<lparr>t_var = - 1 / 2,
                          prior = \<lparr>n_proj = zero_conv, n_blocks = (\<lambda>j. zero_block),
                                   n_bn = id_bn, n_conv = zero_conv\<rparr>\<rparr>)"

definition demo_sens2 :: "bool \<Rightarrow> complex" where
  "demo_sens2 = (\<lambda>q. 2)"

text \<open>
  A feature tensor with one batch entry, 2 by 2 pixels and one channel (channels last),
  and a convolution layer whose kernel entries are all 1.
\<close>

definition demo_image :: ftensor where
  "demo_image = \<lparr>shape = (1, 2, 2, 1), elem = (\<lambda>(b, z, y, c). real (2 * z + y + 1))\<rparr>"

definition ones_conv :: conv_layer where
  "ones_conv = \<lparr>kernel = (\<lambda>dz dy ci co. 1), bias = (\<lambda>co. 0)\<rparr>"

section \<open>Shapes: when the network functions return, and what shape they return\<close>

lemmas axis_defs = axis_z_def axis_y_def axis_c_def

lemma shape_tf_relu [simp]: "shape (tf_relu x) = shape x"
  by (simp add: tf_relu_def)

lemma shape_tf_scale [simp]: "shape (tf_scale t x) = shape x"
  by (simp add: tf_scale_def)

lemma shape_bn_relu [simp]: "shape (priv_batch_norm_relu bn x fmt b tr) = shape x"
  by (simp add: priv_batch_norm_relu_def priv_batch_norm_def tf_batch_normalization_def)

lemma shape_conv2d_same [simp]:
  "shape (conv2d_same cl x f k ub fmt) = set_ax (axis_c fmt) (nat f) (shape x)"
  by (simp add: conv2d_same_def)

lemma shape_circular_pad [simp]:
  "shape (circular_pad x p ax) = set_ax ax (nat (int (get_ax ax (shape x)) + 2 * p)) (shape x)"
  by (simp add: circular_pad_def Let_def)

lemma shape_slice_axis [simp]:
  "shape (slice_axis ax a b x) =
     set_ax ax (slice_bound (get_ax ax (shape x)) b - slice_bound (get_ax ax (shape x)) a) (shape x)"
  by (simp add: slice_axis_def Let_def)

lemma slice_bound_nonneg: "0 \<le> i \<Longrightarrow> slice_bound n i = min n (nat i)"
  by (simp add: slice_bound_def)

lemma shape_circular_pad_zy:
  "shape (circular_pad_zy x p fmt) =
     set_ax (axis_y fmt) (nat (int (get_ax (axis_y fmt) (shape x)) + 2 * p))
       (set_ax (axis_z fmt) (nat (int (get_ax (axis_z fmt) (shape x)) + 2 * p)) (shape x))"
  by (cases "shape x"; cases fmt) (simp_all add: circular_pad_zy_def axis_defs)

lemma shape_crop_padded:
  assumes "0 \<le> p"
    and "get_ax (axis_z fmt) (shape t) = nat (int Z + 2 * p)"
    and "get_ax (axis_y fmt) (shape t) = nat (int Y + 2 * p)"
  shows "shape (crop fmt p (p + int Z) p (p + int Y) t) =
           set_ax (axis_y fmt) Y (set_ax (axis_z fmt) Z (shape t))"
proof -
  obtain n0 n1 n2 n3 where s: "shape t = (n0, n1, n2, n3)" by (cases "shape t")
  have a: "min (nat (int Z + 2 * p)) (nat (p + int Z)) - min (nat (int Z + 2 * p)) (nat p) = Z"
    using assms(1) by (simp add: min_def) linarith
  have b: "min (nat (int Y + 2 * p)) (nat (p + int Y)) - min (nat (int Y + 2 * p)) (nat p) = Y"
    using assms(1) by (simp add: min_def) linarith
  show ?thesis
    using assms a b
    by (cases fmt) (simp_all add: crop_def s axis_defs slice_bound_nonneg)
qed

text \<open>A tensor with the channel extent changed, padded, and cropped again.\<close>

lemma shape_crop_of_padded:
  assumes "0 \<le> p"
    and "shape t = set_ax (axis_c fmt) c (shape (circular_pad_zy x p fmt))"
  shows "shape (crop fmt p (p + int (get_ax (axis_z fmt) (shape x))) p
                 (p + int (get_ax (axis_y fmt) (shape x))) t)
         = set_ax (axis_c fmt) c (shape x)"
proof -
  obtain n0 n1 n2 n3 where s: "shape x = (n0, n1, n2, n3)" by (cases "shape x")
  have z: "get_ax (axis_z fmt) (shape t) = nat (int (get_ax (axis_z fmt) (shape x)) + 2 * p)"
    by (cases fmt) (simp_all add: assms(2) shape_circular_pad_zy s axis_defs)
  have y: "get_ax (axis_y fmt) (shape t) = nat (int (get_ax (axis_y fmt) (shape x)) + 2 * p)"
    by (cases fmt) (simp_all add: assms(2) shape_circular_pad_zy s axis_defs)
  show ?thesis
    unfolding shape_crop_padded[OF assms(1) z y]
    by (cases fmt) (simp_all add: assms(2) shape_circular_pad_zy s axis_defs)
qed

lemma set_ax_c_twice: "set_ax (axis_c fmt) a (set_ax (axis_c fmt) b s) = set_ax (axis_c fmt) a s"
  by (cases s; cases fmt) (simp_all add: axis_defs)

lemma set_ax_c_id: "set_ax (axis_c fmt) (get_ax (axis_c fmt) s) s = s"
  by (cases s; cases fmt) (simp_all add: axis_defs)

subsection \<open>The padded convolution\<close>

lemma priv_conv2d_eq:
  "priv_conv2d cl x f k fmt circ ub =
     (if f < 1 then None
      else Some (if circ \<and> 0 < pad_conv2d k
                 then crop fmt (pad_conv2d k)
                        (int (get_ax (axis_z fmt) (shape x)) + pad_conv2d k) (pad_conv2d k)
                        (int (get_ax (axis_y fmt) (shape x)) + pad_conv2d k)
                        (conv2d_same cl (circular_pad_zy x (pad_conv2d k) fmt) f k ub fmt)
                 else conv2d_same cl x f k ub fmt))"
  by (simp add: priv_conv2d_def tf_conv2d_same_def Let_def)

lemma priv_conv2d_no_circular:
  "priv_conv2d cl x f k fmt False ub = tf_conv2d_same cl x f k ub fmt"
  by (simp add: priv_conv2d_def Let_def)

lemma priv_conv2d_None: "priv_conv2d cl x f k fmt circ ub = None \<longleftrightarrow> f < 1"
  by (simp add: priv_conv2d_eq)

lemma shape_priv_conv2d:
  assumes "priv_conv2d cl x f k fmt circ ub = Some out"
  shows "shape out = set_ax (axis_c fmt) (nat f) (shape x)"
proof (cases "circ \<and> pad_conv2d k > 0")
  case False
  then show ?thesis using assms by (auto simp: priv_conv2d_eq split: if_splits)
next
  case True
  then have p: "0 \<le> pad_conv2d k" by simp
  from assms True have "out = crop fmt (pad_conv2d k)
                        (pad_conv2d k + int (get_ax (axis_z fmt) (shape x))) (pad_conv2d k)
                        (pad_conv2d k + int (get_ax (axis_y fmt) (shape x)))
                        (conv2d_same cl (circular_pad_zy x (pad_conv2d k) fmt) f k ub fmt)"
    by (auto simp: priv_conv2d_eq add.commute split: if_splits)
  then show ?thesis
    using shape_crop_of_padded[OF p, of _ fmt "nat f" x] by simp
qed

lemma priv_conv2d_total:
  assumes "1 \<le> f"
  shows "\<exists>out. priv_conv2d cl x f k fmt circ ub = Some out \<and>
               shape out = set_ax (axis_c fmt) (nat f) (shape x)"
proof -
  from assms obtain out where o: "priv_conv2d cl x f k fmt circ ub = Some out"
    by (cases "priv_conv2d cl x f k fmt circ ub") (simp_all add: priv_conv2d_None)
  with shape_priv_conv2d[OF o] show ?thesis by simp
qed

subsection \<open>The pad widths\<close>

lemma py_int_half:
  assumes "0 \<le> n"
  shows "py_int ((of_int n + 1 / 2) / 2) = n div 2"
proof -
  have nn: "(0::rat) \<le> (of_int n + 1 / 2) / 2" using assms by simp
  have e: "(of_int n :: rat) = 2 * of_int (n div 2) + of_int (n mod 2)"
    by (metis mult_div_mod_eq of_int_add of_int_mult of_int_numeral)
  have m: "n mod 2 = 0 \<or> n mod 2 = 1" by presburger
  have "\<lfloor>(of_int n + 1 / 2) / 2 :: rat\<rfloor> = n div 2"
  proof (rule floor_unique)
    show "of_int (n div 2) \<le> ((of_int n + 1 / 2) / 2 :: rat)"
      using m e by auto
    show "((of_int n + 1 / 2) / 2 :: rat) < of_int (n div 2) + 1"
      using m e by auto
  qed
  then show ?thesis using nn by (simp add: py_int_def)
qed

lemma pad_conv2d_eq: "1 \<le> k \<Longrightarrow> pad_conv2d k = (k - 1) div 2"
  using py_int_half[of "k - 1"] by (simp add: pad_conv2d_def)

lemma pad_res_block_eq: "1 \<le> k \<Longrightarrow> pad_res_block k = k - 1"
  using py_int_half[of "2 * (k - 1)"] by (simp add: pad_res_block_def)

lemma pad_prior_net_eq:
  assumes "0 \<le> B" "1 \<le> k"
  shows "pad_prior_net B k = ((2 * B + 1) * (k - 1)) div 2"
proof -
  have "0 \<le> (B * 2 + 1) * (k - 1)" using assms by simp
  from py_int_half[OF this] show ?thesis by (simp add: pad_prior_net_def mult.commute)
qed

subsection \<open>Addition of tensors of one shape\<close>

lemma bshape_same: "bshape s s = Some s"
  by (cases s) (simp add: compat_def bdim_def)

lemma tf_add_same_shape:
  "shape x = shape y \<Longrightarrow>
   tf_add x y = Some \<lparr>shape = shape x,
                      elem = (\<lambda>i. elem x (bview (shape x) i) + elem y (bview (shape x) i))\<rparr>"
  by (simp add: tf_add_def bshape_same)

lemma bview_in_shape: "in_shape s i \<Longrightarrow> bview s i = i"
  by (cases s; cases i) (auto simp: bix_def)

subsection \<open>The residual block\<close>

lemma res_shortcut_eq:
  "res_shortcut bp x f fmt bnorm =
     (if f \<noteq> int (get_ax (axis_c fmt) (shape x))
      then tf_conv2d_same (b_proj bp) x f 1 (\<not> bnorm) fmt else Some x)"
  by (simp add: res_shortcut_def Let_def priv_conv2d_no_circular)

lemma shape_res_shortcut:
  assumes "res_shortcut bp x f fmt bnorm = Some s"
  shows "shape s = set_ax (axis_c fmt) (nat f) (shape x)"
  using assms
  by (auto simp: res_shortcut_eq tf_conv2d_same_def set_ax_c_id split: if_splits)

lemma res_shortcut_total:
  assumes "1 \<le> f"
  shows "\<exists>s. res_shortcut bp x f fmt bnorm = Some s"
  using assms by (simp add: res_shortcut_eq tf_conv2d_same_def)

lemma res_main_eq:
  "res_main bp x f k fmt circ bnorm tr =
     (if f < 1 then None
      else Some (let p = pad_res_block k;
                     net1 = (if circ then circular_pad_zy x p fmt else x);
                     net5 = conv2d_same (b_conv2 bp)
                              (priv_batch_norm_relu (b_bn2 bp)
                                 (conv2d_same (b_conv1 bp)
                                    (priv_batch_norm_relu (b_bn1 bp) net1 fmt bnorm tr)
                                    f k (\<not> bnorm) fmt)
                                 fmt bnorm tr)
                              f k (\<not> bnorm) fmt
                 in if circ
                    then crop fmt p (p + int (get_ax (axis_z fmt) (shape x))) p
                           (p + int (get_ax (axis_y fmt) (shape x))) net5
                    else net5))"
  by (simp add: res_main_def Let_def priv_conv2d_no_circular tf_conv2d_same_def)

lemma res_main_None: "res_main bp x f k fmt circ bnorm tr = None \<longleftrightarrow> f < 1"
  by (simp add: res_main_eq)

lemma shape_res_main:
  assumes "circ \<longrightarrow> 1 \<le> k" and "res_main bp x f k fmt circ bnorm tr = Some m"
  shows "shape m = set_ax (axis_c fmt) (nat f) (shape x)"
proof (cases circ)
  case True
  then have p: "0 \<le> pad_res_block k"
    using assms(1) pad_res_block_eq[of k] by simp
  show ?thesis
    using True assms(2)
    by (auto simp: res_main_eq Let_def shape_crop_of_padded[OF p] set_ax_c_twice
        split: if_splits)
next
  case False
  then show ?thesis
    using assms(2) by (auto simp: res_main_eq Let_def set_ax_c_twice split: if_splits)
qed

lemma priv_res_block_None:
  assumes "f < 1"
  shows "priv_res_block bp x f k fmt circ bnorm tr = None"
  using assms by (simp add: priv_res_block_def res_main_eq split: Option.bind_splits)

lemma priv_res_block_total:
  assumes "circ \<longrightarrow> 1 \<le> k" and "1 \<le> f"
  shows "\<exists>out m s. priv_res_block bp x f k fmt circ bnorm tr = Some out \<and>
           res_main bp x f k fmt circ bnorm tr = Some m \<and>
           res_shortcut bp x f fmt bnorm = Some s \<and>
           shape m = set_ax (axis_c fmt) (nat f) (shape x) \<and>
           shape s = set_ax (axis_c fmt) (nat f) (shape x) \<and>
           out = \<lparr>shape = shape m,
                   elem = (\<lambda>i. elem m (bview (shape m) i) + elem s (bview (shape m) i))\<rparr>"
proof -
  from assms(2) obtain m where m: "res_main bp x f k fmt circ bnorm tr = Some m"
    by (cases "res_main bp x f k fmt circ bnorm tr") (simp_all add: res_main_None)
  from res_shortcut_total[OF assms(2)] obtain s where
    s: "res_shortcut bp x f fmt bnorm = Some s" by blast
  note sm = shape_res_main[OF assms(1) m]
  note ss = shape_res_shortcut[OF s]
  have eq: "shape m = shape s" by (simp only: sm ss)
  show ?thesis
    using m s sm ss tf_add_same_shape[OF eq] by (simp add: priv_res_block_def)
qed

lemma shape_priv_res_block:
  assumes "circ \<longrightarrow> 1 \<le> k" and "priv_res_block bp x f k fmt circ bnorm tr = Some out"
  shows "shape out = set_ax (axis_c fmt) (nat f) (shape x)"
proof -
  have f: "1 \<le> f"
    using assms(2) priv_res_block_None[of f bp x k fmt circ bnorm tr] by (cases "f < 1") simp_all
  from priv_res_block_total[OF assms(1) f, of bp x fmt bnorm tr] assms(2)
  show ?thesis by auto
qed

lemma res_blocks_total:
  assumes "js \<noteq> [] \<longrightarrow> 1 \<le> f"
  shows "\<exists>out. res_blocks np js x f k fmt bnorm tr = Some out \<and>
         shape out = (if js = [] then shape x else set_ax (axis_c fmt) (nat f) (shape x))"
  using assms
proof (induction js arbitrary: x)
  case Nil
  show ?case by simp
next
  case (Cons j js)
  then have f: "1 \<le> f" by simp
  have nc: "False \<longrightarrow> 1 \<le> k" by simp
  obtain y where y: "priv_res_block (n_blocks np j) x f k fmt False bnorm tr = Some y"
    using priv_res_block_total[OF nc f, of "n_blocks np j" x fmt bnorm tr] by blast
  note sy = shape_priv_res_block[OF nc y]
  from Cons.IH[of y] f obtain out where
    o: "res_blocks np js y f k fmt bnorm tr = Some out"
    and so: "shape out = (if js = [] then shape y else set_ax (axis_c fmt) (nat f) (shape y))"
    by auto
  show ?case
    using y o so sy by (simp add: set_ax_c_twice)
qed

lemma res_blocks_None:
  assumes "js \<noteq> []" and "f < 1"
  shows "res_blocks np js x f k fmt bnorm tr = None"
  using assms by (cases js) (simp_all add: priv_res_block_None)

lemma res_blocks_shape:
  assumes "res_blocks np js x f k fmt bnorm tr = Some out"
  shows "\<exists>c. shape out = set_ax (axis_c fmt) c (shape x)"
proof (cases "js = []")
  case True
  then show ?thesis
    using assms by (auto intro: exI[of _ "get_ax (axis_c fmt) (shape x)"] simp: set_ax_c_id)
next
  case False
  then have "1 \<le> f"
    using assms res_blocks_None[OF False, of f np x k fmt bnorm tr] by (cases "f < 1") simp_all
  with res_blocks_total[of js f np x k fmt bnorm tr] assms False
  show ?thesis by auto
qed

subsection \<open>The prior network\<close>

lemma py_range_Nil: "py_range B = [] \<longleftrightarrow> B < 1"
  by (auto simp: py_range_def)

lemma prior_grad_res_net_total:
  assumes "circ \<longrightarrow> 0 \<le> B \<and> 1 \<le> k"
    and "1 \<le> (case nfo of None \<Rightarrow> int (get_ax (axis_c fmt) (shape x)) | Some n \<Rightarrow> n)"
    and "1 \<le> B \<longrightarrow> 1 \<le> f"
  shows "\<exists>net d cd. prior_grad_res_net np x f k B circ fmt dores bnorm tr nfo = Some (net, d) \<and>
           shape net = set_ax (axis_c fmt)
             (nat (case nfo of None \<Rightarrow> int (get_ax (axis_c fmt) (shape x)) | Some n \<Rightarrow> n))
             (shape x) \<and>
           shape d = set_ax (axis_c fmt) cd (shape x)"
proof -
  let ?fo = "case nfo of None \<Rightarrow> int (get_ax (axis_c fmt) (shape x)) | Some n \<Rightarrow> n"
  let ?p = "pad_prior_net B k"
  let ?net0 = "if circ then circular_pad_zy x ?p fmt else x"
  let ?crop = "\<lambda>t. if circ
        then crop fmt ?p (?p + int (get_ax (axis_z fmt) (shape x))) ?p
               (?p + int (get_ax (axis_y fmt) (shape x))) t else t"
  have nb: "py_range B \<noteq> [] \<longrightarrow> 1 \<le> f"
    using assms(3) by (simp add: py_range_Nil)
  obtain d where d: "res_blocks np (py_range B) ?net0 f k fmt bnorm tr = Some d"
    using res_blocks_total[OF nb, of np ?net0 k fmt bnorm tr] by blast
  obtain c where sd: "shape d = set_ax (axis_c fmt) c (shape ?net0)"
    using res_blocks_shape[OF d] by blast
  obtain net2 where
    n2: "priv_conv2d (n_conv np) (priv_batch_norm_relu (n_bn np) d fmt bnorm tr)
           ?fo k fmt False (\<not> bnorm) = Some net2"
    and "shape net2 = set_ax (axis_c fmt) (nat ?fo)
           (shape (priv_batch_norm_relu (n_bn np) d fmt bnorm tr))"
    using priv_conv2d_total[OF assms(2)] by blast
  then have s2: "shape net2 = set_ax (axis_c fmt) (nat ?fo) (shape ?net0)"
    by (simp only: shape_bn_relu sd set_ax_c_twice)
  have crop_shape: "shape (?crop t) = set_ax (axis_c fmt) c' (shape x)"
    if "shape t = set_ax (axis_c fmt) c' (shape ?net0)" for t c'
  proof (cases circ)
    case False
    then show ?thesis using that by simp
  next
    case True
    then have p0: "0 \<le> ?p" using assms(1) pad_prior_net_eq[of B k] by simp
    from True that have "shape t = set_ax (axis_c fmt) c' (shape (circular_pad_zy x ?p fmt))"
      by simp
    from shape_crop_of_padded[OF p0 this] True show ?thesis by simp
  qed
  note s3 = crop_shape[OF s2]
  note sdc = crop_shape[OF sd]
  obtain sc where
    sc: "(if dores \<and> int (get_ax (axis_c fmt) (shape x)) \<noteq> ?fo
          then priv_conv2d (n_proj np) x ?fo 1 fmt False (\<not> bnorm) else Some x) = Some sc"
    and ssc: "dores \<longrightarrow> shape sc = set_ax (axis_c fmt) (nat ?fo) (shape x)"
  proof (cases "dores \<and> int (get_ax (axis_c fmt) (shape x)) \<noteq> ?fo")
    case True
    with priv_conv2d_total[OF assms(2), of "n_proj np" x 1 fmt False "\<not> bnorm"] that
    show ?thesis by auto
  next
    case False
    have "dores \<longrightarrow> shape x = set_ax (axis_c fmt) (nat ?fo) (shape x)"
      using False by (auto simp: set_ax_c_id)
    with False that[of x] show ?thesis by auto
  qed
  have unf: "prior_grad_res_net np x f k B circ fmt dores bnorm tr nfo =
      (if dores then (case tf_add (?crop net2) sc of None \<Rightarrow> None
                      | Some net \<Rightarrow> Some (net, ?crop d))
       else Some (?crop net2, ?crop d))"
    using d n2 sc
    by (simp add: prior_grad_res_net_def Let_def eq_commute[of "int _"]
        cong: if_cong split: Option.bind_splits)
  show ?thesis
  proof (cases dores)
    case True
    with ssc s3 have "shape (?crop net2) = shape sc" by simp
    from tf_add_same_shape[OF this] True s3 sdc show ?thesis
      unfolding unf by (auto simp del: shape_slice_axis)
  next
    case False
    with s3 sdc show ?thesis unfolding unf by (auto simp del: shape_slice_axis)
  qed
qed


section \<open>Iteration names\<close>

lemma digit_char_val: "d < 10 \<Longrightarrow> of_char (digit_char d) = (48::nat) + d"
proof -
  assume "d < 10"
  then have "d \<in> {0,1,2,3,4,5,6,7,8,9}" by auto
  then show ?thesis by (auto simp: digit_char_def)
qed

lemma decimal_value:
  "foldl (\<lambda>a c. 10 * a + (of_char c - 48)) (0::nat) (decimal n) = n"
proof (induction n rule: decimal.induct)
  case (1 n)
  show ?case
  proof (cases "n < 10")
    case True
    then show ?thesis by (subst decimal.simps) (simp add: digit_char_val)
  next
    case False
    have "n mod 10 < 10" by simp
    with False 1 show ?thesis
      by (subst decimal.simps) (simp add: digit_char_val)
  qed
qed

lemma foldl_zeros:
  "foldl (\<lambda>a c. 10 * a + (of_char c - 48)) (0::nat) (replicate m (CHR ''0'') @ s)
     = foldl (\<lambda>a c. 10 * a + (of_char c - 48)) 0 s"
  by (induction m) simp_all

lemma fmt_02d_value:
  "foldl (\<lambda>a c. 10 * a + (of_char c - 48)) (0::nat) (fmt_02d n) = n"
  unfolding fmt_02d_def foldl_zeros by (rule decimal_value)

lemma fmt_02d_inj: "fmt_02d i = fmt_02d j \<Longrightarrow> i = j"
  by (metis fmt_02d_value)

lemma iter_name_inj: "iter_name i = iter_name j \<longleftrightarrow> i = j"
  by (auto simp: iter_name_def dest: fmt_02d_inj)

lemma inj_iter_name: "inj iter_name"
  by (simp add: inj_def iter_name_inj)

lemma iter_name_examples:
  "iter_name 0 = ''iter_00''" "iter_name 7 = ''iter_07''" "iter_name 12 = ''iter_12''"
  "iter_name 123 = ''iter_123''"
  by (simp_all add: iter_name_def fmt_02d_def digit_char_def)

section \<open>The loop of the solver\<close>

lemma ista_loop_append:
  "ista_loop body (xs @ ys) st =
     (case ista_loop body xs st of None \<Rightarrow> None | Some st' \<Rightarrow> ista_loop body ys st')"
proof (induction xs arbitrary: st)
  case Nil
  show ?case by simp
next
  case (Cons x xs)
  obtain c s where st: "st = (c, s)" by (cases st)
  show ?case
    by (simp add: st Cons.IH split: option.splits)
qed

lemma ista_loop_snoc:
  "ista_loop body (xs @ [i]) st =
     (case ista_loop body xs st of
        None \<Rightarrow> None
      | Some (c, s) \<Rightarrow>
          (case body i c of
             None \<Rightarrow> None
           | Some c' \<Rightarrow> Some (c', s(iter_name i \<mapsto> im_k c'))))"
  by (simp add: ista_loop_append split: option.splits)

lemma ista_loop_prefix:
  assumes "ista_loop body (xs @ ys) st = Some r"
  shows "\<exists>r'. ista_loop body xs st = Some r' \<and> ista_loop body ys r' = Some r"
  using assms by (auto simp: ista_loop_append split: option.splits)

lemma ista_loop_unrecorded_eq:
  "ista_loop_unrecorded body steps c = map_option fst (ista_loop body steps (c, s))"
  by (induction steps arbitrary: c s) (simp_all split: option.splits)

lemma ista_loop_dom:
  assumes "ista_loop body steps (c, s) = Some (c', s')"
  shows "dom s' = dom s \<union> iter_name ` set steps"
  using assms
  by (induction steps arbitrary: c s) (auto split: option.splits)

lemma ista_loop_other_keys:
  assumes "ista_loop body steps (c, s) = Some (c', s')" and "k \<notin> iter_name ` set steps"
  shows "s' k = s k"
  using assms
proof (induction steps arbitrary: c s)
  case Nil
  then show ?case by simp
next
  case (Cons i steps)
  from Cons.prems(1) obtain c1 where b: "body i c = Some c1"
    and r: "ista_loop body steps (c1, s(iter_name i \<mapsto> im_k c1)) = Some (c', s')"
    by (auto split: option.splits)
  from Cons.prems(2) have k: "k \<noteq> iter_name i" "k \<notin> iter_name ` set steps" by auto
  from Cons.IH[OF r k(2)] k(1) show ?case by simp
qed

text \<open>The entry of step \<open>i\<close> is the image estimate that the body returned at step \<open>i\<close>.\<close>

lemma ista_loop_entry:
  assumes "ista_loop body [0..<n] st = Some (c', s')" and "i < n"
  shows "\<exists>c s c1. ista_loop body [0..<i] st = Some (c, s) \<and> body i c = Some c1 \<and>
                   s' (iter_name i) = Some (im_k c1)"
proof -
  have split: "[0..<n] = ([0..<i] @ [i]) @ [Suc i..<n]"
    using assms(2) by (metis Suc_leI le_add_diff_inverse less_imp_le upt_Suc_append upt_add_eq_append zero_le)
  from assms(1) obtain r where r: "ista_loop body ([0..<i] @ [i]) st = Some r"
    and rest: "ista_loop body [Suc i..<n] r = Some (c', s')"
    unfolding split using ista_loop_prefix by blast
  obtain c1 s1 where r1: "r = (c1, s1)" by (cases r)
  from r obtain c s where pre: "ista_loop body [0..<i] st = Some (c, s)"
    and b: "body i c = Some c1" and s1: "s1 = s(iter_name i \<mapsto> im_k c1)"
    by (auto simp: ista_loop_snoc r1 split: option.splits)
  have "iter_name i \<notin> iter_name ` set [Suc i..<n]"
    by (auto simp: iter_name_inj)
  from ista_loop_other_keys[OF rest[unfolded r1] this]
  have "s' (iter_name i) = Some (im_k c1)" by (simp add: s1)
  with pre b show ?thesis by blast
qed

section \<open>The solver multiplies the input by the mask first\<close>

lemma cmul_cong_mask:
  assumes "\<forall>q. msk q \<noteq> 0 \<longrightarrow> ks1 q = ks2 q"
  shows "cmul msk ks1 = cmul msk ks2"
proof
  fix q
  show "cmul msk ks1 q = cmul msk ks2 q"
    using assms by (cases "msk q = 0") (simp_all add: cmul_def)
qed

text \<open>
  Claim C10.  With an explicitly supplied mask, two inputs that agree wherever the mask is
  not zero give the same result of \<open>unroll_ista\<close>: the same image, the same k-space and
  the same diagnostic entries (or the same failure), everything else being equal.
\<close>

theorem unroll_ista_unsampled_independent:
  assumes "\<forall>q. msk q \<noteq> 0 \<longrightarrow> ks1 q = ks2 q"
  shows "unroll_ista ops vars ks1 sensemap cfg (Some msk)
       = unroll_ista ops vars ks2 sensemap cfg (Some msk)"
  by (simp add: unroll_ista_def ista_run_def ista_init_def ista_step_def resolve_mask_def Let_def
      cmul_cong_mask[OF assms] cong: option.case_cong)

theorem unroll_ista_unsampled_independent_witness:
  "demo_mask False = 0 \<and> demo_kspace False \<noteq> 9 \<and> demo_kspace True = 3 \<and>
   unroll_ista coil_ops zero_vars demo_kspace demo_sens (demo_config 1 1) (Some demo_mask)
     = unroll_ista coil_ops zero_vars (\<lambda>q. if q then 3 else 9) demo_sens (demo_config 1 1)
         (Some demo_mask)"
proof -
  have h: "\<forall>q. demo_mask q \<noteq> 0 \<longrightarrow> demo_kspace q = (\<lambda>q. if q then 3 else 9) q"
    by (simp add: demo_mask_def demo_kspace_def)
  show ?thesis
    using unroll_ista_unsampled_independent[OF h]
    by (simp add: demo_mask_def demo_kspace_def)
qed

section \<open>The solver returns\<close>

lemma tf_concat1_total:
  assumes "shape x = (nb, cx, nz, ny)" and "shape y = (nb, cy, nz, ny)"
  shows "\<exists>r. tf_concat1 x y = Some r \<and> shape r = (nb, cx + cy, nz, ny)"
  using assms by (simp add: tf_concat1_def)

text \<open>
  One pass of the loop body returns when the channel packing has a fixed shape with at
  least one channel, the block count is not negative under circular padding, and the
  feature width is positive when there is a block.  The dense features, when there are any,
  keep the batch and spatial extents of the transposed image.
\<close>

lemma ista_body_total:
  assumes sh: "\<forall>im. shape (complex_to_channels ops im) = (nb, nz, ny, nc)"
    and ch: "1 \<le> nc"
    and bl: "circular cfg \<longrightarrow> 0 \<le> resblock_num_blocks cfg"
    and ft: "1 \<le> resblock_num_blocks cfg \<longrightarrow> 1 \<le> resblock_num_features cfg"
    and inv: "\<forall>d. im_dense c = Some d \<longrightarrow> (\<exists>cd. shape d = (nb, cd, nz, ny))"
  shows "\<exists>c'. ista_body ops vars cfg msk sensemap im_0 i c = Some c' \<and>
           (\<not> do_dense cfg \<longrightarrow> im_dense c' = im_dense c) \<and>
           (\<forall>d. im_dense c' = Some d \<longrightarrow> (\<exists>cd. shape d = (nb, cd, nz, ny)))"
proof -
  let ?g = "complex_to_channels ops
              (csub (model_transpose ops (cmul msk (model_forward ops (im_k c) sensemap)) sensemap)
                 im_0)"
  let ?t = "if fix_update cfg then - 2 else t_var (vars (scope_name cfg i))"
  have "shape (complex_to_channels ops (im_k c)) = shape (tf_scale ?t ?g)"
    using sh by simp
  from tf_add_same_shape[OF this] obtain upd where
    upd: "tf_add (complex_to_channels ops (im_k c)) (tf_scale ?t ?g) = Some upd"
    and su: "shape upd = (nb, nz, ny, nc)"
    using sh by auto
  have ub: "update_block ops vars cfg msk sensemap im_0 i (im_k c)
              = Some (cmul msk (model_forward ops (im_k c) sensemap), upd)"
    using upd by (simp add: update_block_def Let_def)
  let ?im1 = "tf_transpose upd (0, 3, 1, 2)"
  have s1: "shape ?im1 = (nb, nc, nz, ny)" by (simp add: su)
  obtain im2 c2 where
    im2: "(case im_dense c of None \<Rightarrow> Some ?im1 | Some d \<Rightarrow> tf_concat1 ?im1 d) = Some im2"
    and s2: "shape im2 = (nb, c2, nz, ny)"
  proof (cases "im_dense c")
    case None
    with s1 that[of ?im1 nc] show ?thesis by simp
  next
    case (Some d)
    with inv obtain cd where "shape d = (nb, cd, nz, ny)" by auto
    from tf_concat1_total[OF s1 this] Some that show ?thesis by auto
  qed
  let ?np = "prior (vars (scope_name cfg i))"
  have k: "circular cfg \<longrightarrow> 0 \<le> resblock_num_blocks cfg \<and> (1::int) \<le> 3"
    using bl by simp
  have fo: "1 \<le> (case Some (int (get_ax 3 (shape upd))) of
                     None \<Rightarrow> int (get_ax (axis_c channels_first) (shape im2)) | Some n \<Rightarrow> n)"
    using ch by (simp add: su)
  from prior_grad_res_net_total[OF k fo ft, where np = ?np and dores = True
      and bnorm = "batchnorm cfg" and tr = "training cfg"]
  obtain net dk cd where
    pn: "prior_grad_res_net ?np im2 (resblock_num_features cfg) 3 (resblock_num_blocks cfg)
           (circular cfg) channels_first True (batchnorm cfg) (training cfg)
           (Some (int (get_ax 3 (shape upd)))) = Some (net, dk)"
    and "shape dk = set_ax (axis_c channels_first) cd (shape im2)"
    by blast
  then have sdk: "shape dk = (nb, cd, nz, ny)" by (simp add: s2 axis_c_def)
  obtain dense' where
    dn: "(if do_dense cfg
          then (case im_dense c of
                  Some d \<Rightarrow> map_option Some (tf_concat1 d dk)
                | None \<Rightarrow> Some (Some dk))
          else Some (im_dense c)) = Some dense'"
    and dn1: "\<not> do_dense cfg \<longrightarrow> dense' = im_dense c"
    and dn2: "\<forall>d. dense' = Some d \<longrightarrow> (\<exists>cd. shape d = (nb, cd, nz, ny))"
  proof (cases "do_dense cfg")
    case False
    with inv that[of "im_dense c"] show ?thesis by simp
  next
    case True
    show ?thesis
    proof (cases "im_dense c")
      case None
      with True sdk that[of "Some dk"] show ?thesis by auto
    next
      case (Some d)
      with inv obtain cd0 where "shape d = (nb, cd0, nz, ny)" by auto
      from tf_concat1_total[OF this sdk] obtain r where
        "tf_concat1 d dk = Some r" "shape r = (nb, cd0 + cd, nz, ny)" by blast
      with True Some that[of "Some r"] show ?thesis by auto
    qed
  qed
  have pb: "prox_block ops vars cfg i upd (im_dense c)
              = Some (channels_to_complex ops (tf_transpose net (0, 2, 3, 1)), dense')"
    unfolding prox_block_def Let_def
    by (simp only: im2 pn dn Option.bind.simps prod.case)
  show ?thesis
    using ub pb dn1 dn2 by (simp add: ista_body_def)
qed

lemma ista_loop_total:
  assumes "\<And>i c. P (im_dense c) \<Longrightarrow> \<exists>c'. body i c = Some c' \<and> P (im_dense c')"
    and "P (im_dense c)"
  shows "\<exists>c' s'. ista_loop body steps (c, s) = Some (c', s')"
  using assms(2)
proof (induction steps arbitrary: c s)
  case Nil
  then show ?case by simp
next
  case (Cons i steps)
  from assms(1)[OF Cons.prems] obtain c1 where b: "body i c = Some c1" and d: "P (im_dense c1)"
    by blast
  from Cons.IH[OF d, of "s(iter_name i \<mapsto> im_k c1)"] obtain c' s' where
    "ista_loop body steps (c1, s(iter_name i \<mapsto> im_k c1)) = Some (c', s')"
    by blast
  with b show ?case by simp
qed

lemma ista_run_total:
  assumes "\<forall>im. shape (complex_to_channels ops im) = s0"
    and "1 \<le> get_ax 3 s0"
    and "circular cfg \<longrightarrow> 0 \<le> resblock_num_blocks cfg"
    and "1 \<le> resblock_num_blocks cfg \<longrightarrow> 1 \<le> resblock_num_features cfg"
  shows "\<exists>c s. ista_run ops vars ks_input sensemap cfg mask_opt steps = Some (c, s)"
proof -
  obtain nb nz ny nc where s0: "s0 = (nb, nz, ny, nc)" by (cases s0)
  let ?P = "\<lambda>dn. \<forall>d. dn = Some d \<longrightarrow> (\<exists>cd. shape d = (nb, cd, nz, ny))"
  have sh: "\<forall>im. shape (complex_to_channels ops im) = (nb, nz, ny, nc)"
    using assms(1) s0 by simp
  have ch: "1 \<le> nc" using assms(2) s0 by simp
  have i: "?P (im_dense (ista_init ops ks_input sensemap mask_opt))"
    by (simp add: ista_init_def Let_def)
  have b: "\<exists>c'. ista_step ops vars ks_input sensemap cfg mask_opt i c = Some c' \<and>
             ?P (im_dense c')" if "?P (im_dense c)" for i c
    using ista_body_total[OF sh ch assms(3,4) that]
    unfolding ista_step_def Let_def by blast
  from ista_loop_total[of ?P "ista_step ops vars ks_input sensemap cfg mask_opt", OF b i]
  show ?thesis unfolding ista_run_def by blast
qed

lemma unroll_ista_total:
  assumes "\<forall>im. shape (complex_to_channels ops im) = s0"
    and "1 \<le> get_ax 3 s0"
    and "circular cfg \<longrightarrow> 0 \<le> resblock_num_blocks cfg"
    and "1 \<le> resblock_num_blocks cfg \<longrightarrow> 1 \<le> resblock_num_features cfg"
  shows "\<exists>im ks summary. unroll_ista ops vars ks_input sensemap cfg mask_opt
           = Some (im, ks, summary)"
proof -
  from ista_run_total[OF assms] obtain c s where
    "ista_run ops vars ks_input sensemap cfg mask_opt (py_range (num_grad_steps cfg)) = Some (c, s)"
    by blast
  then show ?thesis
    by (simp add: unroll_ista_def Let_def split: prod.splits)
qed




lemma coil_ops_shape: "\<forall>im. shape (complex_to_channels coil_ops im) = (1, 1, 1, 2)"
  by (simp add: coil_ops_def)

lemma demo_config_simps:
  "num_grad_steps (demo_config n b) = n" "resblock_num_blocks (demo_config n b) = b"
  "resblock_num_features (demo_config n b) = 1"
  "hard_projection (demo_config n b)" "\<not> do_dense (demo_config n b)"
  "circular (demo_config n b)" "batchnorm (demo_config n b)" "\<not> fix_update (demo_config n b)"
  "\<not> resblock_share (demo_config n b)" "training (demo_config n b)"
  "mask_output (demo_config n b) = Some (\<lambda>q. 1)"
  by (simp_all add: demo_config_def default_config_def)

lemma demo_total:
  assumes "0 \<le> b"
  shows "\<exists>im ks summary. unroll_ista coil_ops zero_vars ks_input sensemap (demo_config n b) mask_opt
           = Some (im, ks, summary)"
  by (rule unroll_ista_total[OF coil_ops_shape]) (simp_all add: demo_config_simps assms)

section \<open>Hard projection\<close>

lemma finalize_hard:
  assumes "hard_projection cfg"
  shows "finalize ops cfg msk sensemap ks_0 im =
     (model_transpose ops (\<lambda>q. (msk q * ks_0 q + (1 - msk q) * model_forward ops im sensemap q)
         * output_scale cfg q) sensemap,
      (\<lambda>q. (msk q * ks_0 q + (1 - msk q) * model_forward ops im sensemap q) * output_scale cfg q))"
  using assms
  by (auto simp: finalize_def Let_def cmul_def cadd_def crsub_def output_scale_def
      split: option.splits)

lemma unroll_ista_SomeD:
  assumes "unroll_ista ops vars ks_input sensemap cfg mask_opt = Some (im, ks, summary)"
  shows "\<exists>c. ista_run ops vars ks_input sensemap cfg mask_opt (py_range (num_grad_steps cfg))
                = Some (c, summary) \<and>
             finalize ops cfg (resolve_mask ks_input mask_opt) sensemap
                (cmul (resolve_mask ks_input mask_opt) ks_input) (im_k c) = (im, ks)"
  using assms
  by (auto simp: unroll_ista_def Let_def split: option.splits prod.splits)

text \<open>
  Claim C1.  When \<open>unroll_ista\<close> returns with \<open>hard_projection\<close> enabled, the returned
  k-space equals the input k-space times \<open>mask_output\<close> wherever the mask is 1, equals the
  forward transform of the last image estimate of the loop (the network's prediction) times
  \<open>mask_output\<close> wherever the mask is 0, and the returned image is the adjoint transform
  of the returned k-space.  With \<open>mask_output = None\<close> the factor is 1.
\<close>

theorem hard_projection_exact:
  assumes "hard_projection cfg"
    and "unroll_ista ops vars ks_input sensemap cfg mask_opt = Some (im, ks, summary)"
  shows "\<exists>c s. ista_run ops vars ks_input sensemap cfg mask_opt (py_range (num_grad_steps cfg))
                 = Some (c, s) \<and>
           (\<forall>q. resolve_mask ks_input mask_opt q = 1 \<longrightarrow>
                  ks q = ks_input q * output_scale cfg q) \<and>
           (\<forall>q. resolve_mask ks_input mask_opt q = 0 \<longrightarrow>
                  ks q = model_forward ops (im_k c) sensemap q * output_scale cfg q) \<and>
           im = model_transpose ops ks sensemap"
proof -
  from unroll_ista_SomeD[OF assms(2)] obtain c where
    run: "ista_run ops vars ks_input sensemap cfg mask_opt (py_range (num_grad_steps cfg))
            = Some (c, summary)"
    and fin: "finalize ops cfg (resolve_mask ks_input mask_opt) sensemap
                (cmul (resolve_mask ks_input mask_opt) ks_input) (im_k c) = (im, ks)"
    by blast
  from fin have ks: "ks = (\<lambda>q. (resolve_mask ks_input mask_opt q * cmul (resolve_mask ks_input mask_opt) ks_input q
               + (1 - resolve_mask ks_input mask_opt q) * model_forward ops (im_k c) sensemap q)
               * output_scale cfg q)"
    unfolding finalize_hard[OF assms(1)] by simp
  from fin have im: "im = model_transpose ops ks sensemap"
    unfolding finalize_hard[OF assms(1)] by auto
  show ?thesis
    using run im by (auto simp: ks cmul_def)
qed

theorem hard_projection_exact_witness:
  "hard_projection (demo_config 1 1 :: bool config) \<and>
   (\<exists>im ks summary c s.
      unroll_ista coil_ops zero_vars demo_kspace demo_sens (demo_config 1 1) (Some demo_mask)
        = Some (im, ks, summary) \<and>
      ista_run coil_ops zero_vars demo_kspace demo_sens (demo_config 1 1) (Some demo_mask)
        (py_range 1) = Some (c, s) \<and>
      resolve_mask demo_kspace (Some demo_mask) True = 1 \<and>
      ks True = demo_kspace True * 1 \<and>
      resolve_mask demo_kspace (Some demo_mask) False = 0 \<and>
      ks False = model_forward coil_ops (im_k c) demo_sens False * 1 \<and>
      im = model_transpose coil_ops ks demo_sens)"
proof -
  have hp: "hard_projection (demo_config 1 1 :: bool config)" by (simp add: demo_config_simps)
  obtain im ks summary where
    r: "unroll_ista coil_ops zero_vars demo_kspace demo_sens (demo_config 1 1) (Some demo_mask)
          = Some (im, ks, summary)"
    using demo_total[of 1 demo_kspace demo_sens 1 "Some demo_mask"] by auto
  from hard_projection_exact[OF hp r] obtain c s where
    run: "ista_run coil_ops zero_vars demo_kspace demo_sens (demo_config 1 1) (Some demo_mask)
            (py_range (num_grad_steps (demo_config 1 1 :: bool config))) = Some (c, s)"
    and a: "\<forall>q. resolve_mask demo_kspace (Some demo_mask) q = 1 \<longrightarrow>
                  ks q = demo_kspace q * output_scale (demo_config 1 1) q"
    and b: "\<forall>q. resolve_mask demo_kspace (Some demo_mask) q = 0 \<longrightarrow>
                  ks q = model_forward coil_ops (im_k c) demo_sens q * output_scale (demo_config 1 1) q"
    and i: "im = model_transpose coil_ops ks demo_sens"
    by blast
  have m1: "resolve_mask demo_kspace (Some demo_mask) True = 1"
    and m0: "resolve_mask demo_kspace (Some demo_mask) False = 0"
    by (simp_all add: resolve_mask_def demo_mask_def)
  have sc: "output_scale (demo_config 1 1 :: bool config) q = 1" for q
    by (simp add: output_scale_def demo_config_simps)
  from a m1 sc have k1: "ks True = demo_kspace True * 1" by simp
  from b m0 sc have k0: "ks False = model_forward coil_ops (im_k c) demo_sens False * 1" by simp
  from run have run': "ista_run coil_ops zero_vars demo_kspace demo_sens (demo_config 1 1)
      (Some demo_mask) (py_range 1) = Some (c, s)"
    by (simp add: demo_config_simps)
  show ?thesis
    using hp r run' m1 k1 m0 k0 i by blast
qed

section \<open>Zero steps\<close>

lemma unroll_ista_zero_steps:
  assumes "num_grad_steps cfg \<le> 0"
  shows "unroll_ista ops vars ks_input sensemap cfg mask_opt =
     (let msk = resolve_mask ks_input mask_opt;
          ks_0 = cmul msk ks_input;
          (im, ks) = finalize ops cfg msk sensemap ks_0 (model_transpose ops ks_0 sensemap)
      in Some (im, ks, Map.empty))"
  using assms
  by (simp add: unroll_ista_def ista_run_def ista_init_def py_range_def Let_def)

text \<open>
  Claim C3 fails as stated.  One pixel, two coils of sensitivity 1, only the first coil
  sampled, zero steps: the anchor image is 3, but the forward transform of the anchor puts
  the value 3 on the unsampled coil, the projection keeps it, and the returned image is 6;
  the returned k-space is 3 on the unsampled coil, where the masked input is 0.
\<close>

theorem zero_step_counterexample:
  "(case unroll_ista coil_ops zero_vars demo_kspace demo_sens (demo_config 0 1) (Some demo_mask) of
      None \<Rightarrow> False
    | Some (im, ks, summary) \<Rightarrow>
        im () = 6 \<and> model_transpose coil_ops (cmul demo_mask demo_kspace) demo_sens () = 3 \<and>
        ks False = 3 \<and> cmul demo_mask demo_kspace False = 0)"
  by (simp add: unroll_ista_zero_steps demo_config_simps finalize_hard resolve_mask_def
      output_scale_def coil_ops_def cmul_def demo_mask_def demo_kspace_def demo_sens_def)

text \<open>
  Claim C3, amended.  With \<open>num_grad_steps = 0\<close> and \<open>hard_projection\<close>, \<open>unroll_ista\<close>
  returns the k-space \<open>(mask * ks_0 + (1 - mask) * model_forward(im_0)) * mask_output\<close>,
  its adjoint transform as image, and an empty diagnostic mapping, where
  \<open>ks_0 = mask * ks_input\<close> and \<open>im_0 = model_transpose(ks_0)\<close> is the anchor image.  If
  moreover the forward transform of the anchor image agrees with the masked input wherever
  the mask is not 1 and the output factor is 1 everywhere, then \<open>unroll_ista\<close> returns the
  anchor image (the adjoint reconstruction of the masked input), the masked input as
  k-space, and an empty diagnostic mapping.
\<close>

theorem zero_step_identity:
  assumes "num_grad_steps cfg = 0" and "hard_projection cfg"
  shows "unroll_ista ops vars ks_input sensemap cfg mask_opt =
           Some (model_transpose ops
                   (\<lambda>q. (resolve_mask ks_input mask_opt q
                            * cmul (resolve_mask ks_input mask_opt) ks_input q
                          + (1 - resolve_mask ks_input mask_opt q)
                            * model_forward ops
                                (model_transpose ops
                                   (cmul (resolve_mask ks_input mask_opt) ks_input) sensemap)
                                sensemap q)
                         * output_scale cfg q) sensemap,
                 (\<lambda>q. (resolve_mask ks_input mask_opt q
                          * cmul (resolve_mask ks_input mask_opt) ks_input q
                        + (1 - resolve_mask ks_input mask_opt q)
                          * model_forward ops
                              (model_transpose ops
                                 (cmul (resolve_mask ks_input mask_opt) ks_input) sensemap)
                              sensemap q)
                       * output_scale cfg q),
                 Map.empty) \<and>
         ((\<forall>q. resolve_mask ks_input mask_opt q \<noteq> 1 \<longrightarrow>
             model_forward ops
               (model_transpose ops (cmul (resolve_mask ks_input mask_opt) ks_input) sensemap)
               sensemap q
             = cmul (resolve_mask ks_input mask_opt) ks_input q) \<and>
          (\<forall>q. output_scale cfg q = 1) \<longrightarrow>
          unroll_ista ops vars ks_input sensemap cfg mask_opt =
            Some (model_transpose ops (cmul (resolve_mask ks_input mask_opt) ks_input) sensemap,
                  cmul (resolve_mask ks_input mask_opt) ks_input, Map.empty))"
proof -
  let ?m = "resolve_mask ks_input mask_opt"
  let ?k0 = "cmul ?m ks_input"
  let ?im0 = "model_transpose ops ?k0 sensemap"
  let ?ks = "\<lambda>q. (?m q * ?k0 q + (1 - ?m q) * model_forward ops ?im0 sensemap q)
                  * output_scale cfg q"
  have gen: "unroll_ista ops vars ks_input sensemap cfg mask_opt =
               Some (model_transpose ops ?ks sensemap, ?ks, Map.empty)"
    using assms(1) by (simp add: unroll_ista_zero_steps finalize_hard[OF assms(2)] Let_def)
  have "?ks = ?k0"
    if a: "\<forall>q. ?m q \<noteq> 1 \<longrightarrow> model_forward ops ?im0 sensemap q = ?k0 q"
      and b: "\<forall>q. output_scale cfg q = 1"
  proof
    fix q
    show "?ks q = ?k0 q"
    proof (cases "?m q = 1")
      case True
      then show ?thesis using b by simp
    next
      case False
      with a have "model_forward ops ?im0 sensemap q = ?k0 q" by blast
      then show ?thesis using b by (simp add: algebra_simps)
    qed
  qed
  then have "unroll_ista ops vars ks_input sensemap cfg mask_opt = Some (?im0, ?k0, Map.empty)"
    if "\<forall>q. ?m q \<noteq> 1 \<longrightarrow> model_forward ops ?im0 sensemap q = ?k0 q"
      and "\<forall>q. output_scale cfg q = 1"
    using gen that by simp
  with gen show ?thesis by blast
qed

theorem zero_step_identity_witness:
  "num_grad_steps (demo_config 0 1 :: bool config) = 0 \<and>
   hard_projection (demo_config 0 1 :: bool config) \<and>
   model_forward coil_ops
     (model_transpose coil_ops (cmul demo_mask demo_kspace) demo_mask) demo_mask False
     = cmul demo_mask demo_kspace False \<and>
   output_scale (demo_config 0 1 :: bool config) True = 1 \<and>
   unroll_ista coil_ops zero_vars demo_kspace demo_mask (demo_config 0 1) (Some demo_mask) =
     Some (model_transpose coil_ops (cmul demo_mask demo_kspace) demo_mask,
           cmul demo_mask demo_kspace, Map.empty)"
proof -
  have n: "num_grad_steps (demo_config 0 1 :: bool config) = 0"
    and hp: "hard_projection (demo_config 0 1 :: bool config)"
    by (simp_all add: demo_config_simps)
  have a: "\<forall>q. resolve_mask demo_kspace (Some demo_mask) q \<noteq> 1 \<longrightarrow>
           model_forward coil_ops
             (model_transpose coil_ops (cmul (resolve_mask demo_kspace (Some demo_mask)) demo_kspace)
                demo_mask) demo_mask q
           = cmul (resolve_mask demo_kspace (Some demo_mask)) demo_kspace q"
    by (simp add: resolve_mask_def coil_ops_def cmul_def demo_mask_def)
  have sc: "\<forall>q. output_scale (demo_config 0 1 :: bool config) q = 1"
    by (simp add: output_scale_def demo_config_simps)
  from zero_step_identity[OF n hp, where vars = zero_vars and ops = coil_ops
      and ks_input = demo_kspace and sensemap = demo_mask and mask_opt = "Some demo_mask"] a sc
  have "unroll_ista coil_ops zero_vars demo_kspace demo_mask (demo_config 0 1) (Some demo_mask) =
     Some (model_transpose coil_ops
             (cmul (resolve_mask demo_kspace (Some demo_mask)) demo_kspace) demo_mask,
           cmul (resolve_mask demo_kspace (Some demo_mask)) demo_kspace, Map.empty)"
    by blast
  with a sc n hp show ?thesis by (simp add: resolve_mask_def demo_mask_def)
qed

section \<open>Masking twice\<close>

text \<open>
  Claim C7 fails for a mask that is not 0/1-valued: with the value 2 everywhere, masking
  twice multiplies by 4.
\<close>

theorem mask_idempotence_counterexample:
  "cmul (\<lambda>q. 2) (cmul (\<lambda>q. 2) demo_kspace) True \<noteq> cmul (\<lambda>q. 2) demo_kspace True"
  by (simp add: cmul_def demo_kspace_def)

lemma cmul_idem:
  assumes "\<forall>q. msk q = 0 \<or> msk q = 1"
  shows "cmul msk (cmul msk ks) = cmul msk ks"
proof
  fix q
  show "cmul msk (cmul msk ks) q = cmul msk ks q"
    using assms[rule_format, of q] by (auto simp: cmul_def)
qed

text \<open>
  Claim C7, amended.  For a mask whose entries are all 0 or 1, masking twice equals masking
  once; so \<open>unroll_ista\<close>, which masks its input first, returns the same result for an
  already masked input as for the input itself.
\<close>

theorem mask_idempotence_binary:
  assumes "\<forall>q. msk q = 0 \<or> msk q = 1"
  shows "cmul msk (cmul msk ks) = cmul msk ks \<and>
         unroll_ista ops vars (cmul msk ks) sensemap cfg (Some msk)
           = unroll_ista ops vars ks sensemap cfg (Some msk)"
  by (simp add: unroll_ista_def ista_run_def ista_init_def ista_step_def resolve_mask_def Let_def
      cmul_idem[OF assms] cong: option.case_cong)

theorem mask_idempotence_binary_witness:
  "demo_mask True = 1 \<and> demo_mask False = 0 \<and>
   cmul demo_mask (cmul demo_mask demo_kspace) = cmul demo_mask demo_kspace \<and>
   unroll_ista coil_ops zero_vars (cmul demo_mask demo_kspace) demo_sens (demo_config 1 1)
       (Some demo_mask)
     = unroll_ista coil_ops zero_vars demo_kspace demo_sens (demo_config 1 1) (Some demo_mask)"
proof -
  have h: "\<forall>q. demo_mask q = 0 \<or> demo_mask q = 1" by (simp add: demo_mask_def)
  from mask_idempotence_binary[OF h, of demo_kspace coil_ops zero_vars demo_sens "demo_config 1 1"]
  show ?thesis by (simp add: demo_mask_def)
qed

section \<open>The diagnostic mapping\<close>

lemma ista_body_SomeD:
  assumes "ista_body ops vars cfg msk sensemap im_0 i c = Some c1"
  shows "\<exists>upd. update_block ops vars cfg msk sensemap im_0 i (im_k c) = Some (ks_k c1, upd) \<and>
               prox_block ops vars cfg i upd (im_dense c) = Some (im_k c1, im_dense c1)"
  using assms
  by (auto simp: ista_body_def split: Option.bind_splits prod.splits)

text \<open>
  Claim C9.  When \<open>unroll_ista\<close> returns after \<open>N = num_grad_steps\<close> iterations, the
  diagnostic mapping has exactly \<open>N\<close> entries, keyed by the names \<open>"iter_%02d" % i\<close> of the
  iteration indices \<open>0, ..., N - 1\<close>; the entry of iteration \<open>i\<close> is the complex image that
  the prior-network block of that iteration returned; and the returned image and k-space
  are those of the same loop without the recording statement.
\<close>

theorem summary_entries:
  assumes "unroll_ista ops vars ks_input sensemap cfg mask_opt = Some (im, ks, summary)"
  shows "dom summary = iter_name ` {0..<nat (num_grad_steps cfg)} \<and>
         card (dom summary) = nat (num_grad_steps cfg) \<and>
         (i < nat (num_grad_steps cfg) \<longrightarrow>
            (\<exists>c s c1 upd.
               ista_run ops vars ks_input sensemap cfg mask_opt [0..<i] = Some (c, s) \<and>
               ista_step ops vars ks_input sensemap cfg mask_opt i c = Some c1 \<and>
               prox_block ops vars cfg i upd (im_dense c) = Some (im_k c1, im_dense c1) \<and>
               summary (iter_name i) = Some (im_k c1))) \<and>
         (\<exists>c. ista_loop_unrecorded (ista_step ops vars ks_input sensemap cfg mask_opt)
                 (py_range (num_grad_steps cfg)) (ista_init ops ks_input sensemap mask_opt)
                 = Some c \<and>
               (im, ks) = finalize ops cfg (resolve_mask ks_input mask_opt) sensemap
                            (cmul (resolve_mask ks_input mask_opt) ks_input) (im_k c))"
proof -
  let ?step = "ista_step ops vars ks_input sensemap cfg mask_opt"
  let ?init = "ista_init ops ks_input sensemap mask_opt"
  let ?n = "nat (num_grad_steps cfg)"
  from unroll_ista_SomeD[OF assms] obtain cN where
    run: "ista_run ops vars ks_input sensemap cfg mask_opt (py_range (num_grad_steps cfg))
            = Some (cN, summary)"
    and fin: "finalize ops cfg (resolve_mask ks_input mask_opt) sensemap
                (cmul (resolve_mask ks_input mask_opt) ks_input) (im_k cN) = (im, ks)"
    by blast
  from run have loop: "ista_loop ?step [0..<?n] (?init, Map.empty) = Some (cN, summary)"
    by (simp add: ista_run_def py_range_def)
  have d: "dom summary = iter_name ` {0..<?n}"
    using ista_loop_dom[OF loop] by simp
  have "card (iter_name ` {0..<?n}) = card {0..<?n}"
    by (rule card_image) (simp add: inj_on_def iter_name_inj)
  then have c: "card (dom summary) = ?n" by (simp add: d)
  have e: "\<exists>c s c1 upd.
               ista_run ops vars ks_input sensemap cfg mask_opt [0..<i] = Some (c, s) \<and>
               ?step i c = Some c1 \<and>
               prox_block ops vars cfg i upd (im_dense c) = Some (im_k c1, im_dense c1) \<and>
               summary (iter_name i) = Some (im_k c1)" if "i < ?n"
  proof -
    from ista_loop_entry[OF loop that] obtain c s c1 where
      pre: "ista_loop ?step [0..<i] (?init, Map.empty) = Some (c, s)"
      and st: "?step i c = Some c1" and en: "summary (iter_name i) = Some (im_k c1)"
      by blast
    from ista_body_SomeD[OF st[unfolded ista_step_def Let_def]] obtain upd where
      "prox_block ops vars cfg i upd (im_dense c) = Some (im_k c1, im_dense c1)"
      by blast
    with pre st en show ?thesis by (auto simp: ista_run_def)
  qed
  have u: "ista_loop_unrecorded ?step (py_range (num_grad_steps cfg)) ?init = Some cN"
    using loop by (simp add: ista_loop_unrecorded_eq[of _ _ _ Map.empty] py_range_def)
  show ?thesis
    using d c e u fin by auto
qed

lemma demo_iter_names: "iter_name ` {0..<2} = {''iter_00'', ''iter_01''}"
proof -
  have "{0..<2::nat} = {0, 1}" by auto
  then show ?thesis by (simp add: iter_name_def fmt_02d_def digit_char_def)
qed

theorem summary_entries_witness:
  "\<exists>im ks summary.
     unroll_ista coil_ops zero_vars demo_kspace demo_sens (demo_config 2 1) (Some demo_mask)
       = Some (im, ks, summary) \<and>
     dom summary = {''iter_00'', ''iter_01''} \<and> card (dom summary) = 2 \<and>
     (\<exists>c s c1. ista_run coil_ops zero_vars demo_kspace demo_sens (demo_config 2 1)
                 (Some demo_mask) [0..<1] = Some (c, s) \<and>
               ista_step coil_ops zero_vars demo_kspace demo_sens (demo_config 2 1)
                 (Some demo_mask) 1 c = Some c1 \<and>
               summary ''iter_01'' = Some (im_k c1))"
proof -
  obtain im ks summary where
    r: "unroll_ista coil_ops zero_vars demo_kspace demo_sens (demo_config 2 1) (Some demo_mask)
          = Some (im, ks, summary)"
    using demo_total[of 1 demo_kspace demo_sens 2 "Some demo_mask"] by auto
  have n: "nat (num_grad_steps (demo_config 2 1 :: bool config)) = 2"
    by (simp add: demo_config_simps)
  have i1: "iter_name 1 = ''iter_01''"
    by (simp add: iter_name_def fmt_02d_def digit_char_def)
  note se = summary_entries[OF r, of 1, unfolded n demo_iter_names i1]
  from se have d: "dom summary = {''iter_00'', ''iter_01''}" and cd: "card (dom summary) = 2"
    by blast+
  from se obtain c s c1 where
    "ista_run coil_ops zero_vars demo_kspace demo_sens (demo_config 2 1) (Some demo_mask) [0..<1]
       = Some (c, s)"
    "ista_step coil_ops zero_vars demo_kspace demo_sens (demo_config 2 1) (Some demo_mask) 1 c
       = Some c1"
    "summary ''iter_01'' = Some (im_k c1)"
    by auto
  with r d cd show ?thesis by blast
qed

section \<open>The gradient step\<close>

lemma tf_add_SomeD:
  assumes "tf_add x y = Some r"
  shows "bshape (shape x) (shape y) = Some (shape r)"
    and "elem r j = elem x (bview (shape x) j) + elem y (bview (shape y) j)"
  using assms by (auto simp: tf_add_def split: option.splits)

lemma update_block_SomeD:
  assumes "update_block ops vars cfg msk sensemap im_0 i im = Some (k, upd)"
  shows "tf_add (complex_to_channels ops im)
           (tf_scale (if fix_update cfg then - 2
                      else t_var (vars (if resblock_share cfg then ''iter'' else iter_name i)))
              (complex_to_channels ops
                 (\<lambda>p. model_transpose ops (\<lambda>q. msk q * model_forward ops im sensemap q)
                         sensemap p - im_0 p)))
         = Some upd"
proof -
  have "tf_add (complex_to_channels ops im)
          (tf_scale (if fix_update cfg then - 2 else t_var (vars (scope_name cfg i)))
             (complex_to_channels ops
                (csub (model_transpose ops (cmul msk (model_forward ops im sensemap)) sensemap)
                   im_0))) = Some upd"
    using assms unfolding update_block_def Let_def by (auto split: option.splits if_splits)
  then show ?thesis
    by (simp only: csub_def cmul_def scope_name_def)
qed

text \<open>
  Claim C2.  In iteration \<open>i\<close> of a run of \<open>unroll_ista\<close> that returns, the tensor \<open>upd\<close>
  handed to the prior-network block is \<open>pre_update + t * gradient\<close>, entry by entry.  Here
  \<open>pre_update\<close> is the current estimate \<open>im_k\<close> packed into channels, and \<open>gradient\<close> is the
  packing of the image whose value at \<open>p\<close> is the adjoint of the masked forward transform
  of \<open>im_k\<close> minus the anchor image, the adjoint of the masked input.  The shape of \<open>upd\<close>
  is the broadcast of the two shapes and each entry of \<open>upd\<close> is the entry of
  \<open>pre_update\<close> plus \<open>t\<close> times the entry of \<open>gradient\<close>, read through the broadcast; when
  the two packings have one shape, \<open>upd\<close> has that shape and
  \<open>upd[j] = pre_update[j] + t * gradient[j]\<close> at every index \<open>j\<close> inside it.  \<open>t\<close> is \<open>-2\<close>
  when \<open>fix_update\<close> is set; otherwise it is the variable \<open>t\<close> of the scope \<open>iter\<close> when
  weights are shared and of the scope named after the iteration otherwise, and different
  iterations have different names.  The prior-network block maps \<open>upd\<close> to the next
  estimate.
\<close>

theorem gradient_update:
  assumes "unroll_ista ops vars ks_input sensemap cfg mask_opt = Some (im, ks, summary)"
    and "i < nat (num_grad_steps cfg)"
  shows "\<exists>c s c1 upd pre_update gradient t.
           ista_run ops vars ks_input sensemap cfg mask_opt [0..<i] = Some (c, s) \<and>
           pre_update = complex_to_channels ops (im_k c) \<and>
           gradient = complex_to_channels ops
             (\<lambda>p. model_transpose ops
                     (\<lambda>q. resolve_mask ks_input mask_opt q
                            * model_forward ops (im_k c) sensemap q) sensemap p
                   - model_transpose ops
                       (\<lambda>q. resolve_mask ks_input mask_opt q * ks_input q) sensemap p) \<and>
           t = (if fix_update cfg then - 2
                else t_var (vars (if resblock_share cfg then ''iter'' else iter_name i))) \<and>
           bshape (shape pre_update) (shape gradient) = Some (shape upd) \<and>
           (\<forall>j. elem upd j = elem pre_update (bview (shape pre_update) j)
                              + t * elem gradient (bview (shape gradient) j)) \<and>
           (shape pre_update = shape gradient \<longrightarrow>
              shape upd = shape pre_update \<and>
              (\<forall>j. in_shape (shape upd) j \<longrightarrow>
                     elem upd j = elem pre_update j + t * elem gradient j)) \<and>
           prox_block ops vars cfg i upd (im_dense c) = Some (im_k c1, im_dense c1) \<and>
           ista_run ops vars ks_input sensemap cfg mask_opt [0..<Suc i]
             = Some (c1, s(iter_name i \<mapsto> im_k c1)) \<and>
           (\<forall>j. j \<noteq> i \<longrightarrow> iter_name j \<noteq> iter_name i)"
proof -
  let ?step = "ista_step ops vars ks_input sensemap cfg mask_opt"
  let ?init = "ista_init ops ks_input sensemap mask_opt"
  let ?m = "resolve_mask ks_input mask_opt"
  let ?t = "if fix_update cfg then - 2
            else t_var (vars (if resblock_share cfg then ''iter'' else iter_name i))"
  from unroll_ista_SomeD[OF assms(1)] obtain cN where
    "ista_run ops vars ks_input sensemap cfg mask_opt (py_range (num_grad_steps cfg))
       = Some (cN, summary)"
    by blast
  then have loop: "ista_loop ?step [0..<nat (num_grad_steps cfg)] (?init, Map.empty)
                     = Some (cN, summary)"
    by (simp add: ista_run_def py_range_def)
  from ista_loop_entry[OF loop assms(2)] obtain c s c1 where
    pre: "ista_loop ?step [0..<i] (?init, Map.empty) = Some (c, s)"
    and st: "?step i c = Some c1"
    by blast
  let ?pre = "complex_to_channels ops (im_k c)"
  let ?g = "complex_to_channels ops
             (\<lambda>p. model_transpose ops (\<lambda>q. ?m q * model_forward ops (im_k c) sensemap q) sensemap p
                   - model_transpose ops (\<lambda>q. ?m q * ks_input q) sensemap p)"
  from ista_body_SomeD[OF st[unfolded ista_step_def Let_def]] obtain upd where
    ub: "update_block ops vars cfg ?m sensemap (model_transpose ops (cmul ?m ks_input) sensemap)
           i (im_k c) = Some (ks_k c1, upd)"
    and pb: "prox_block ops vars cfg i upd (im_dense c) = Some (im_k c1, im_dense c1)"
    by blast
  from update_block_SomeD[OF ub] have add: "tf_add ?pre (tf_scale ?t ?g) = Some upd"
    by (simp only: cmul_def)
  have sh: "bshape (shape ?pre) (shape ?g) = Some (shape upd)"
    using tf_add_SomeD(1)[OF add] by simp
  have el: "\<forall>j. elem upd j = elem ?pre (bview (shape ?pre) j) + ?t * elem ?g (bview (shape ?g) j)"
    using tf_add_SomeD(2)[OF add] by (simp add: tf_scale_def)
  have same: "shape ?pre = shape ?g \<longrightarrow>
              shape upd = shape ?pre \<and>
              (\<forall>j. in_shape (shape upd) j \<longrightarrow> elem upd j = elem ?pre j + ?t * elem ?g j)"
  proof (intro impI)
    assume e: "shape ?pre = shape ?g"
    with sh have su: "shape upd = shape ?pre" by (simp add: bshape_same)
    have "elem upd j = elem ?pre j + ?t * elem ?g j" if "in_shape (shape upd) j" for j
    proof -
      from that su e have b: "bview (shape ?pre) j = j" "bview (shape ?g) j = j"
        by (simp_all add: bview_in_shape)
      from el have "elem upd j = elem ?pre (bview (shape ?pre) j)
                                 + ?t * elem ?g (bview (shape ?g) j)"
        by (rule spec)
      then show ?thesis by (simp only: b)
    qed
    with su show "shape upd = shape ?pre \<and>
              (\<forall>j. in_shape (shape upd) j \<longrightarrow> elem upd j = elem ?pre j + ?t * elem ?g j)"
      by blast
  qed
  have nxt: "ista_loop ?step [0..<Suc i] (?init, Map.empty) = Some (c1, s(iter_name i \<mapsto> im_k c1))"
    using pre st by (simp add: ista_loop_snoc)
  have inj: "\<forall>j. j \<noteq> i \<longrightarrow> iter_name j \<noteq> iter_name i"
    by (simp add: iter_name_inj)
  from pre have pre': "ista_run ops vars ks_input sensemap cfg mask_opt [0..<i] = Some (c, s)"
    by (simp add: ista_run_def)
  from nxt have nxt': "ista_run ops vars ks_input sensemap cfg mask_opt [0..<Suc i]
             = Some (c1, s(iter_name i \<mapsto> im_k c1))"
    by (simp add: ista_run_def)
  show ?thesis
    apply (rule exI[of _ c], rule exI[of _ s], rule exI[of _ c1], rule exI[of _ upd])
    apply (rule exI[of _ ?pre], rule exI[of _ ?g], rule exI[of _ ?t])
    apply (rule conjI[OF pre'], rule conjI[OF refl], rule conjI[OF refl], rule conjI[OF refl])
    apply (rule conjI[OF sh], rule conjI[OF el], rule conjI[OF same], rule conjI[OF pb])
    apply (rule conjI[OF nxt' inj])
    done
qed

lemma iter_name_0: "iter_name 0 = ''iter_00''"
  by (simp add: iter_name_def fmt_02d_def digit_char_def)

theorem gradient_update_witness:
  "\<exists>im ks summary c s c1 upd.
     unroll_ista coil_ops demo_vars demo_kspace demo_sens2 (demo_config 1 1) (Some demo_mask)
       = Some (im, ks, summary) \<and>
     ista_run coil_ops demo_vars demo_kspace demo_sens2 (demo_config 1 1) (Some demo_mask) [0..<0]
       = Some (c, s) \<and>
     im_k c () = 6 \<and>
     elem (complex_to_channels coil_ops (im_k c)) (0, 0, 0, 0) = 6 \<and>
     elem (complex_to_channels coil_ops
             (\<lambda>p. model_transpose coil_ops
                     (\<lambda>q. demo_mask q * model_forward coil_ops (im_k c) demo_sens2 q) demo_sens2 p
                   - model_transpose coil_ops (\<lambda>q. demo_mask q * demo_kspace q) demo_sens2 p))
       (0, 0, 0, 0) = 18 \<and>
     t_var (demo_vars ''iter_00'') = - 1 / 2 \<and>
     shape upd = (1, 1, 1, 2) \<and> elem upd (0, 0, 0, 0) = - 3 \<and> elem upd (0, 0, 0, 1) = 0 \<and>
     prox_block coil_ops demo_vars (demo_config 1 1) 0 upd (im_dense c)
       = Some (im_k c1, im_dense c1) \<and>
     ista_run coil_ops demo_vars demo_kspace demo_sens2 (demo_config 1 1) (Some demo_mask)
       [0..<Suc 0] = Some (c1, s(''iter_00'' \<mapsto> im_k c1))"
proof -
  let ?cfg = "demo_config 1 1 :: bool config"
  obtain im ks summary where
    r: "unroll_ista coil_ops demo_vars demo_kspace demo_sens2 ?cfg (Some demo_mask)
          = Some (im, ks, summary)"
    using unroll_ista_total[OF coil_ops_shape, of ?cfg demo_vars demo_kspace demo_sens2
        "Some demo_mask"]
    by (auto simp: demo_config_simps)
  have n: "0 < nat (num_grad_steps ?cfg)"
    by (simp add: demo_config_simps)
  have t: "(if fix_update ?cfg then - 2
            else t_var (demo_vars (if resblock_share ?cfg then ''iter'' else ''iter_00'')))
           = - 1 / 2"
    by (simp add: demo_config_simps demo_vars_def)
  have m: "resolve_mask demo_kspace (Some demo_mask) = demo_mask"
    by (simp add: resolve_mask_def)
  from gradient_update[OF r n, unfolded iter_name_0, unfolded t m] obtain c s c1 upd pre_update gradient t
    where h: "ista_run coil_ops demo_vars demo_kspace demo_sens2 ?cfg (Some demo_mask) [0..<0]
                = Some (c, s) \<and>
           pre_update = complex_to_channels coil_ops (im_k c) \<and>
           gradient = complex_to_channels coil_ops
             (\<lambda>p. model_transpose coil_ops
                     (\<lambda>q. demo_mask q * model_forward coil_ops (im_k c) demo_sens2 q) demo_sens2 p
                   - model_transpose coil_ops (\<lambda>q. demo_mask q * demo_kspace q) demo_sens2 p) \<and>
           t = - 1 / 2 \<and>
           bshape (shape pre_update) (shape gradient) = Some (shape upd) \<and>
           (\<forall>j. elem upd j = elem pre_update (bview (shape pre_update) j)
                              + t * elem gradient (bview (shape gradient) j)) \<and>
           (shape pre_update = shape gradient \<longrightarrow>
              shape upd = shape pre_update \<and>
              (\<forall>j. in_shape (shape upd) j \<longrightarrow>
                     elem upd j = elem pre_update j + t * elem gradient j)) \<and>
           prox_block coil_ops demo_vars ?cfg 0 upd (im_dense c) = Some (im_k c1, im_dense c1) \<and>
           ista_run coil_ops demo_vars demo_kspace demo_sens2 ?cfg (Some demo_mask) [0..<Suc 0]
             = Some (c1, s(''iter_00'' \<mapsto> im_k c1)) \<and>
           (\<forall>j. j \<noteq> 0 \<longrightarrow> iter_name j \<noteq> ''iter_00'')"
    apply (elim exE)
    apply (rule that)
    apply assumption
    done
  from h have run0: "ista_run coil_ops demo_vars demo_kspace demo_sens2 ?cfg (Some demo_mask)
                       [0..<0] = Some (c, s)"
    and pre: "pre_update = complex_to_channels coil_ops (im_k c)"
    and g: "gradient = complex_to_channels coil_ops
             (\<lambda>p. model_transpose coil_ops
                     (\<lambda>q. demo_mask q * model_forward coil_ops (im_k c) demo_sens2 q) demo_sens2 p
                   - model_transpose coil_ops (\<lambda>q. demo_mask q * demo_kspace q) demo_sens2 p)"
    and tv: "t = - 1 / 2"
    and same: "shape pre_update = shape gradient \<longrightarrow>
              shape upd = shape pre_update \<and>
              (\<forall>j. in_shape (shape upd) j \<longrightarrow>
                     elem upd j = elem pre_update j + t * elem gradient j)"
    and pb: "prox_block coil_ops demo_vars ?cfg 0 upd (im_dense c) = Some (im_k c1, im_dense c1)"
    and run1: "ista_run coil_ops demo_vars demo_kspace demo_sens2 ?cfg (Some demo_mask)
                 [0..<Suc 0] = Some (c1, s(''iter_00'' \<mapsto> im_k c1))"
    by blast+
  from run0 have c: "c = ista_init coil_ops demo_kspace demo_sens2 (Some demo_mask)"
    by (simp add: ista_run_def)
  have imk: "im_k c = (\<lambda>p. 6)"
    by (simp add: c ista_init_def Let_def resolve_mask_def coil_ops_def cmul_def demo_mask_def
        demo_kspace_def demo_sens2_def)
  have sp: "shape pre_update = (1, 1, 1, 2)" and sg: "shape gradient = (1, 1, 1, 2)"
    using coil_ops_shape by (simp_all add: pre g)
  have p0: "elem pre_update (0, 0, 0, 0) = 6" and p1: "elem pre_update (0, 0, 0, Suc 0) = 0"
    by (simp_all add: pre imk coil_ops_def)
  have g0: "elem gradient (0, 0, 0, 0) = 18" and g1: "elem gradient (0, 0, 0, Suc 0) = 0"
    by (simp_all add: g imk coil_ops_def demo_mask_def demo_kspace_def demo_sens2_def)
  from same sp sg have su: "shape upd = (1, 1, 1, 2)"
    and el: "\<forall>j. in_shape (shape upd) j \<longrightarrow> elem upd j = elem pre_update j + t * elem gradient j"
    by simp_all
  have u0: "elem upd (0, 0, 0, 0) = - 3"
    using el[rule_format, of "(0, 0, 0, 0)"] by (simp add: su p0 g0 tv)
  have u1: "elem upd (0, 0, 0, 1) = 0"
    using el[rule_format, of "(0, 0, 0, 1)"] by (simp add: su p1 g1 tv)
  have i6: "im_k c () = 6" by (simp add: imk)
  have tq: "t_var (demo_vars ''iter_00'') = - 1 / 2" by (simp add: demo_vars_def)
  show ?thesis
    apply (rule exI[of _ im], rule exI[of _ ks], rule exI[of _ summary], rule exI[of _ c])
    apply (rule exI[of _ s], rule exI[of _ c1], rule exI[of _ upd])
    apply (rule conjI[OF r], rule conjI[OF run0], rule conjI[OF i6])
    apply (rule conjI[OF p0[unfolded pre]], rule conjI[OF g0[unfolded g]], rule conjI[OF tq])
    apply (rule conjI[OF su], rule conjI[OF u0], rule conjI[OF u1], rule conjI[OF pb run1])
    done
qed

section \<open>No validation of the configuration\<close>




section \<open>The padded convolution\<close>

lemma elem_slice_axis:
  "elem (slice_axis ax a b x) i
     = elem x (set_ax ax (get_ax ax i + slice_bound (get_ax ax (shape x)) a) i)"
  by (simp add: slice_axis_def Let_def)

lemma elem_circular_pad:
  "elem (circular_pad x p ax) i
     = elem x (set_ax ax (nat ((int (get_ax ax i) - p) mod int (get_ax ax (shape x)))) i)"
  by (simp add: circular_pad_def Let_def)

lemma sum3_cong:
  assumes "\<And>dz dy ci. dz < k \<Longrightarrow> dy < k \<Longrightarrow> ci < c \<Longrightarrow> F dz dy ci = G dz dy ci"
  shows "(\<Sum>dz\<leftarrow>[0..<k]. \<Sum>dy\<leftarrow>[0..<k]. \<Sum>ci\<leftarrow>[0..<c]. F dz dy ci)
       = (\<Sum>dz\<leftarrow>[0..<k]. \<Sum>dy\<leftarrow>[0..<k]. \<Sum>ci\<leftarrow>[0..<c]. (G dz dy ci :: real))"
  by (intro arg_cong[where f = sum_list] map_cong refl) (simp add: assms)

text \<open>Reading the padded tensor inside its extent is reading the input periodically.\<close>

lemma read_zero_padded:
  assumes "0 \<le> p" and "0 \<le> zi" and "zi < int (get_ax (axis_z fmt) (shape x)) + 2 * p"
    and "0 \<le> yi" and "yi < int (get_ax (axis_y fmt) (shape x)) + 2 * p"
  shows "read_zero (circular_pad_zy x p fmt) fmt b ci zi yi
       = elem x (phys fmt b ci (nat ((zi - p) mod int (get_ax (axis_z fmt) (shape x))))
                   (nat ((yi - p) mod int (get_ax (axis_y fmt) (shape x)))))"
proof -
  obtain n0 n1 n2 n3 where s: "shape x = (n0, n1, n2, n3)" by (cases "shape x")
  show ?thesis
    using assms
    by (cases fmt)
       (simp_all add: read_zero_def shape_circular_pad_zy circular_pad_zy_def elem_circular_pad
          s axis_defs phys_def)
qed

lemma phys_get:
  "phys fmt (get_ax 0 i) (get_ax (axis_c fmt) i) (get_ax (axis_z fmt) i) (get_ax (axis_y fmt) i) = i"
  by (cases i; cases fmt) (simp_all add: phys_def axis_defs)

lemma get_ax_phys:
  "get_ax 0 (phys fmt b c z y) = b" "get_ax (axis_c fmt) (phys fmt b c z y) = c"
  "get_ax (axis_z fmt) (phys fmt b c z y) = z" "get_ax (axis_y fmt) (phys fmt b c z y) = y"
  by (cases fmt; simp add: phys_def axis_defs)+

lemma elem_conv_at:
  "elem (conv2d_same cl x f k ub fmt) (phys fmt b co z y)
     = (\<Sum>dz\<leftarrow>[0..<nat k]. \<Sum>dy\<leftarrow>[0..<nat k]. \<Sum>ci\<leftarrow>[0..<get_ax (axis_c fmt) (shape x)].
          read_zero x fmt b ci (int z + int dz - (k - 1) div 2) (int y + int dy - (k - 1) div 2)
            * kernel cl dz dy ci co)
       + (if ub then bias cl co else 0)"
  by (simp add: conv2d_same_def Let_def get_ax_phys)

lemma elem_periodic_at:
  "elem (conv2d_periodic cl x f k ub fmt) (phys fmt b co z y)
     = (\<Sum>dz\<leftarrow>[0..<nat k]. \<Sum>dy\<leftarrow>[0..<nat k]. \<Sum>ci\<leftarrow>[0..<get_ax (axis_c fmt) (shape x)].
          elem x (phys fmt b ci
                    (nat ((int z + int dz - (k - 1) div 2) mod int (get_ax (axis_z fmt) (shape x))))
                    (nat ((int y + int dy - (k - 1) div 2) mod int (get_ax (axis_y fmt) (shape x)))))
            * kernel cl dz dy ci co)
       + (if ub then bias cl co else 0)"
  by (simp add: conv2d_periodic_def Let_def get_ax_phys)

lemma elem_crop_at:
  assumes "0 \<le> p"
    and "get_ax (axis_z fmt) (shape t) = nat (int Z + 2 * p)"
    and "get_ax (axis_y fmt) (shape t) = nat (int Y + 2 * p)"
  shows "elem (crop fmt p (p + int Z) p (p + int Y) t) (phys fmt b c z y)
           = elem t (phys fmt b c (z + nat p) (y + nat p))"
proof -
  obtain n0 n1 n2 n3 where s: "shape t = (n0, n1, n2, n3)" by (cases "shape t")
  have m: "min (nat (int Z + 2 * p)) (nat p) = nat p" "min (nat (int Y + 2 * p)) (nat p) = nat p"
    using assms(1) by simp_all
  show ?thesis
    using assms m
    by (cases fmt)
       (simp_all add: crop_def elem_slice_axis s axis_defs phys_def slice_bound_nonneg)
qed

lemma shape_conv_padded:
  "get_ax (axis_z fmt) (shape (conv2d_same cl (circular_pad_zy x p fmt) f k ub fmt))
     = nat (int (get_ax (axis_z fmt) (shape x)) + 2 * p)"
  "get_ax (axis_y fmt) (shape (conv2d_same cl (circular_pad_zy x p fmt) f k ub fmt))
     = nat (int (get_ax (axis_y fmt) (shape x)) + 2 * p)"
  "get_ax (axis_c fmt) (shape (circular_pad_zy x p fmt)) = get_ax (axis_c fmt) (shape x)"
  by (cases "shape x"; cases fmt; simp add: shape_circular_pad_zy axis_defs)+

lemma circular_conv_elem:
  assumes "odd k" and "1 \<le> k"
    and "z < get_ax (axis_z fmt) (shape x)" and "y < get_ax (axis_y fmt) (shape x)"
    and "priv_conv2d cl x f k fmt True ub = Some out"
  shows "elem out (phys fmt b co z y)
       = elem (conv2d_periodic cl x f k ub fmt) (phys fmt b co z y)"
proof -
  let ?p = "(k - 1) div 2"
  let ?Z = "get_ax (axis_z fmt) (shape x)"
  let ?Y = "get_ax (axis_y fmt) (shape x)"
  have pe: "pad_conv2d k = ?p" by (rule pad_conv2d_eq[OF assms(2)])
  have k: "k = 2 * ?p + 1" using assms(1) by presburger
  have p0: "0 \<le> ?p" using assms(2) by simp
  have out: "out = (if 0 < ?p
                    then crop fmt ?p (?p + int ?Z) ?p (?p + int ?Y)
                           (conv2d_same cl (circular_pad_zy x ?p fmt) f k ub fmt)
                    else conv2d_same cl x f k ub fmt)"
    using assms(5) by (auto simp: priv_conv2d_eq pe add.commute split: if_splits)
  show ?thesis
  proof (cases "0 < ?p")
    case True
    have "elem out (phys fmt b co z y)
        = elem (conv2d_same cl (circular_pad_zy x ?p fmt) f k ub fmt)
            (phys fmt b co (z + nat ?p) (y + nat ?p))"
      using True elem_crop_at[OF p0 shape_conv_padded(1) shape_conv_padded(2)]
      by (simp add: out)
    also have "\<dots> = elem (conv2d_periodic cl x f k ub fmt) (phys fmt b co z y)"
      unfolding elem_conv_at elem_periodic_at shape_conv_padded(3)
    proof (intro arg_cong2[where f = "(+)"] refl sum3_cong arg_cong2[where f = "(*)"])
      fix dz dy ci
      assume d: "dz < nat k" "dy < nat k"
      have zb: "0 \<le> int (z + nat ?p) + int dz - ?p"
               "int (z + nat ?p) + int dz - ?p < int ?Z + 2 * ?p"
        using d(1) assms(3) p0 k by linarith+
      have yb: "0 \<le> int (y + nat ?p) + int dy - ?p"
               "int (y + nat ?p) + int dy - ?p < int ?Y + 2 * ?p"
        using d(2) assms(4) p0 k by linarith+
      have e: "int (z + nat ?p) + int dz - ?p - ?p = int z + int dz - ?p"
              "int (y + nat ?p) + int dy - ?p - ?p = int y + int dy - ?p"
        using p0 by simp_all
      show "read_zero (circular_pad_zy x ?p fmt) fmt b ci
              (int (z + nat ?p) + int dz - ?p) (int (y + nat ?p) + int dy - ?p)
            = elem x (phys fmt b ci (nat ((int z + int dz - ?p) mod int ?Z))
                        (nat ((int y + int dy - ?p) mod int ?Y)))"
        unfolding read_zero_padded[OF p0 zb yb] e ..
    qed
    finally show ?thesis .
  next
    case False
    then have pz: "?p = 0" using p0 by linarith
    then have k1: "k = 1" using k by simp
    have "elem out (phys fmt b co z y) = elem (conv2d_same cl x f k ub fmt) (phys fmt b co z y)"
      using False by (simp add: out)
    also have "\<dots> = elem (conv2d_periodic cl x f k ub fmt) (phys fmt b co z y)"
      unfolding elem_conv_at elem_periodic_at
      using assms(3,4) by (simp add: k1 read_zero_def)
    finally show ?thesis .
  qed
qed

lemma in_shape_spatial:
  assumes "in_shape (set_ax (axis_c fmt) c s) i"
  shows "get_ax (axis_z fmt) i < get_ax (axis_z fmt) s"
    and "get_ax (axis_y fmt) i < get_ax (axis_y fmt) s"
  using assms by (cases s; cases i; cases fmt; simp add: axis_defs)+

lemma pad_conv2d_floor: "1 \<le> k \<Longrightarrow> pad_conv2d k = \<lfloor>(of_int k - 1 / 2) / 2 :: rat\<rfloor>"
  by (simp add: pad_conv2d_def py_int_def)

text \<open>
  Claim C5.  For an odd kernel size \<open>k\<close>, \<open>_conv2d\<close> with circular mode pads both spatial
  axes by \<open>floor((k - 0.5) / 2)\<close> on each side, convolves, and crops the same amount.  It
  returns exactly when the number of filters is at least 1; its output then has the spatial
  extent of the input and, at every index inside the shape, the value of the same-padding
  convolution with periodic boundary.  With circular mode disabled it is TensorFlow's
  same-padding (zero boundary) convolution.
\<close>

theorem conv2d_circular_periodic:
  assumes "odd k" and "1 \<le> k"
  shows "pad_conv2d k = \<lfloor>(of_int k - 1 / 2) / 2 :: rat\<rfloor> \<and>
         priv_conv2d cl x f k fmt True ub =
           (if 0 < pad_conv2d k
            then map_option
                   (crop fmt (pad_conv2d k)
                      (int (get_ax (axis_z fmt) (shape x)) + pad_conv2d k) (pad_conv2d k)
                      (int (get_ax (axis_y fmt) (shape x)) + pad_conv2d k))
                   (tf_conv2d_same cl (circular_pad_zy x (pad_conv2d k) fmt) f k ub fmt)
            else tf_conv2d_same cl x f k ub fmt) \<and>
         (priv_conv2d cl x f k fmt True ub = None \<longleftrightarrow> f < 1) \<and>
         (1 \<le> f \<longrightarrow>
            (\<exists>out. priv_conv2d cl x f k fmt True ub = Some out \<and>
               shape out = set_ax (axis_c fmt) (nat f) (shape x) \<and>
               get_ax (axis_z fmt) (shape out) = get_ax (axis_z fmt) (shape x) \<and>
               get_ax (axis_y fmt) (shape out) = get_ax (axis_y fmt) (shape x) \<and>
               (\<forall>i. in_shape (shape out) i \<longrightarrow>
                      elem out i = elem (conv2d_periodic cl x f k ub fmt) i))) \<and>
         shape (conv2d_periodic cl x f k ub fmt) = set_ax (axis_c fmt) (nat f) (shape x) \<and>
         priv_conv2d cl x f k fmt False ub = tf_conv2d_same cl x f k ub fmt"
proof -
  have a: "pad_conv2d k = \<lfloor>(of_int k - 1 / 2) / 2 :: rat\<rfloor>"
    by (rule pad_conv2d_floor[OF assms(2)])
  have b: "priv_conv2d cl x f k fmt True ub =
           (if 0 < pad_conv2d k
            then map_option
                   (crop fmt (pad_conv2d k)
                      (int (get_ax (axis_z fmt) (shape x)) + pad_conv2d k) (pad_conv2d k)
                      (int (get_ax (axis_y fmt) (shape x)) + pad_conv2d k))
                   (tf_conv2d_same cl (circular_pad_zy x (pad_conv2d k) fmt) f k ub fmt)
            else tf_conv2d_same cl x f k ub fmt)"
    by (simp add: priv_conv2d_eq tf_conv2d_same_def)
  have c: "shape (conv2d_periodic cl x f k ub fmt) = set_ax (axis_c fmt) (nat f) (shape x)"
    by (simp add: conv2d_periodic_def)
  have d: "\<exists>out. priv_conv2d cl x f k fmt True ub = Some out \<and>
               shape out = set_ax (axis_c fmt) (nat f) (shape x) \<and>
               get_ax (axis_z fmt) (shape out) = get_ax (axis_z fmt) (shape x) \<and>
               get_ax (axis_y fmt) (shape out) = get_ax (axis_y fmt) (shape x) \<and>
               (\<forall>i. in_shape (shape out) i \<longrightarrow>
                      elem out i = elem (conv2d_periodic cl x f k ub fmt) i)"
    if "1 \<le> f"
  proof -
    from priv_conv2d_total[OF that] obtain out where
      o: "priv_conv2d cl x f k fmt True ub = Some out"
      and s: "shape out = set_ax (axis_c fmt) (nat f) (shape x)"
      by blast
    have sz: "get_ax (axis_z fmt) (shape out) = get_ax (axis_z fmt) (shape x)"
      and sy: "get_ax (axis_y fmt) (shape out) = get_ax (axis_y fmt) (shape x)"
      unfolding s by (cases "shape x"; cases fmt; simp add: axis_defs)+
    have "elem out i = elem (conv2d_periodic cl x f k ub fmt) i" if "in_shape (shape out) i" for i
      using circular_conv_elem[OF assms in_shape_spatial[OF that[unfolded s]] o,
          of "get_ax 0 i" "get_ax (axis_c fmt) i"]
      by (simp add: phys_get)
    with o s sz sy show ?thesis by blast
  qed
  show ?thesis
    by (intro conjI impI a b c d priv_conv2d_None priv_conv2d_no_circular)
qed

lemma upt3: "[0..<3] = [0, 1, 2]" "[0..<2] = [0, 1]" "[0..<1] = [0]"
  by (simp_all add: upt_rec)

lemma demo_periodic_value:
  "elem (conv2d_periodic ones_conv demo_image 1 3 False channels_last) (0, 0, 0, 0) = 27"
  by (simp add: conv2d_periodic_def Let_def axis_defs phys_def demo_image_def ones_conv_def upt3)

theorem conv2d_circular_periodic_witness:
  "odd (3::int) \<and> (1::int) \<le> 3 \<and>
   (\<exists>out. priv_conv2d ones_conv demo_image 1 3 channels_last True False = Some out \<and>
      shape out = (1, 2, 2, 1) \<and> in_shape (shape out) (0, 0, 0, 0) \<and>
      elem out (0, 0, 0, 0) = 27)"
proof -
  have o: "odd (3::int)" and k: "(1::int) \<le> 3" and f: "(1::int) \<le> 1" by simp_all
  from conv2d_circular_periodic[OF o k, where f = 1 and cl = ones_conv and x = demo_image
      and fmt = channels_last and ub = False] f
  obtain out where
    r: "priv_conv2d ones_conv demo_image 1 3 channels_last True False = Some out"
    and s: "shape out = set_ax (axis_c channels_last) (nat 1) (shape demo_image)"
    and e: "\<forall>i. in_shape (shape out) i \<longrightarrow>
              elem out i = elem (conv2d_periodic ones_conv demo_image 1 3 False channels_last) i"
    by blast
  have s': "shape out = (1, 2, 2, 1)"
    by (simp add: s demo_image_def axis_defs)
  have i: "in_shape (shape out) (0, 0, 0, 0)" by (simp add: s')
  from e i have v: "elem out (0, 0, 0, 0) = 27"
    by (simp add: demo_periodic_value)
  show ?thesis using o k r s' i v by blast
qed

section \<open>The residual block\<close>

lemma set_ax_c_phys: "set_ax (axis_c fmt) c (phys fmt b co z y) = phys fmt b c z y"
  by (cases fmt) (simp_all add: phys_def axis_defs)

lemma conv_1x1_elem:
  assumes "in_shape (set_ax (axis_c fmt) (nat f) (shape x)) i"
  shows "elem (conv2d_same cl x f 1 ub fmt) i =
           (\<Sum>ci\<leftarrow>[0..<get_ax (axis_c fmt) (shape x)].
              elem x (set_ax (axis_c fmt) ci i) * kernel cl 0 0 ci (get_ax (axis_c fmt) i))
           + (if ub then bias cl (get_ax (axis_c fmt) i) else 0)"
proof -
  let ?b = "get_ax 0 i" and ?co = "get_ax (axis_c fmt) i"
  let ?z = "get_ax (axis_z fmt) i" and ?y = "get_ax (axis_y fmt) i"
  note sp = in_shape_spatial[OF assms]
  have i: "i = phys fmt ?b ?co ?z ?y" by (simp add: phys_get)
  have "elem (conv2d_same cl x f 1 ub fmt) (phys fmt ?b ?co ?z ?y) =
           (\<Sum>ci\<leftarrow>[0..<get_ax (axis_c fmt) (shape x)].
              elem x (phys fmt ?b ci ?z ?y) * kernel cl 0 0 ci ?co)
           + (if ub then bias cl ?co else 0)"
    unfolding elem_conv_at using sp by (simp add: read_zero_def)
  also have "(\<lambda>ci. elem x (phys fmt ?b ci ?z ?y) * kernel cl 0 0 ci ?co)
           = (\<lambda>ci. elem x (set_ax (axis_c fmt) ci i) * kernel cl 0 0 ci ?co)"
    by (subst (2) i) (simp add: set_ax_c_phys)
  finally show ?thesis by (simp add: phys_get)
qed

lemma in_shape_channels:
  assumes "in_shape (set_ax (axis_c fmt) c s) i"
  shows "0 < c"
  using assms by (cases s; cases i; cases fmt; simp add: axis_defs)

text \<open>
  Claim C6.  In \<open>_res_block\<close> the shortcut is the unmodified input when the channel counts
  match; otherwise it is TensorFlow's convolution with kernel size 1, with no circular
  padding and with a bias exactly when normalisation is off, that is, at every pixel a
  linear combination of the input channels.  For a target channel count of at least 1 the
  block returns, its output has the shape of the input with the target channel count, and
  inside that shape it is the elementwise sum of the main path and the shortcut.  For a
  target channel count below 1 the block fails, as the convolutions of its main path do.
\<close>

theorem res_block_shortcut:
  assumes "circ \<longrightarrow> 1 \<le> k"
  shows "res_shortcut bp x f fmt bnorm =
           (if f \<noteq> int (get_ax (axis_c fmt) (shape x))
            then tf_conv2d_same (b_proj bp) x f 1 (\<not> bnorm) fmt else Some x) \<and>
         (in_shape (set_ax (axis_c fmt) (nat f) (shape x)) i \<longrightarrow>
            (\<exists>t. tf_conv2d_same (b_proj bp) x f 1 (\<not> bnorm) fmt = Some t \<and>
               elem t i =
                 (\<Sum>ci\<leftarrow>[0..<get_ax (axis_c fmt) (shape x)].
                    elem x (set_ax (axis_c fmt) ci i)
                      * kernel (b_proj bp) 0 0 ci (get_ax (axis_c fmt) i))
                 + (if \<not> bnorm then bias (b_proj bp) (get_ax (axis_c fmt) i) else 0))) \<and>
         (1 \<le> f \<longrightarrow>
            (\<exists>out m s. priv_res_block bp x f k fmt circ bnorm tr = Some out \<and>
               res_main bp x f k fmt circ bnorm tr = Some m \<and>
               res_shortcut bp x f fmt bnorm = Some s \<and>
               shape out = set_ax (axis_c fmt) (nat f) (shape x) \<and>
               get_ax (axis_z fmt) (shape out) = get_ax (axis_z fmt) (shape x) \<and>
               get_ax (axis_y fmt) (shape out) = get_ax (axis_y fmt) (shape x) \<and>
               (\<forall>j. in_shape (shape out) j \<longrightarrow> elem out j = elem m j + elem s j))) \<and>
         (f < 1 \<longrightarrow> priv_res_block bp x f k fmt circ bnorm tr = None)"
proof -
  have a: "\<exists>t. tf_conv2d_same (b_proj bp) x f 1 (\<not> bnorm) fmt = Some t \<and>
               elem t i =
                 (\<Sum>ci\<leftarrow>[0..<get_ax (axis_c fmt) (shape x)].
                    elem x (set_ax (axis_c fmt) ci i)
                      * kernel (b_proj bp) 0 0 ci (get_ax (axis_c fmt) i))
                 + (if \<not> bnorm then bias (b_proj bp) (get_ax (axis_c fmt) i) else 0)"
    if "in_shape (set_ax (axis_c fmt) (nat f) (shape x)) i"
  proof -
    from in_shape_channels[OF that] have "1 \<le> f" by simp
    then have "tf_conv2d_same (b_proj bp) x f 1 (\<not> bnorm) fmt
                 = Some (conv2d_same (b_proj bp) x f 1 (\<not> bnorm) fmt)"
      by (simp add: tf_conv2d_same_def)
    with conv_1x1_elem[OF that, of "b_proj bp" "\<not> bnorm"] show ?thesis by simp
  qed
  have c: "\<exists>out m s. priv_res_block bp x f k fmt circ bnorm tr = Some out \<and>
               res_main bp x f k fmt circ bnorm tr = Some m \<and>
               res_shortcut bp x f fmt bnorm = Some s \<and>
               shape out = set_ax (axis_c fmt) (nat f) (shape x) \<and>
               get_ax (axis_z fmt) (shape out) = get_ax (axis_z fmt) (shape x) \<and>
               get_ax (axis_y fmt) (shape out) = get_ax (axis_y fmt) (shape x) \<and>
               (\<forall>j. in_shape (shape out) j \<longrightarrow> elem out j = elem m j + elem s j)"
    if "1 \<le> f"
  proof -
    from priv_res_block_total[OF assms that, of bp x fmt bnorm tr] obtain out m s where
      r: "priv_res_block bp x f k fmt circ bnorm tr = Some out"
      and m: "res_main bp x f k fmt circ bnorm tr = Some m"
      and s: "res_shortcut bp x f fmt bnorm = Some s"
      and sm: "shape m = set_ax (axis_c fmt) (nat f) (shape x)"
      and out: "out = \<lparr>shape = shape m,
                   elem = (\<lambda>i. elem m (bview (shape m) i) + elem s (bview (shape m) i))\<rparr>"
      by blast
    have so: "shape out = set_ax (axis_c fmt) (nat f) (shape x)" by (simp add: out sm)
    have sz: "get_ax (axis_z fmt) (shape out) = get_ax (axis_z fmt) (shape x)"
      and sy: "get_ax (axis_y fmt) (shape out) = get_ax (axis_y fmt) (shape x)"
      unfolding so by (cases "shape x"; cases fmt; simp add: axis_defs)+
    have e: "\<forall>j. in_shape (shape out) j \<longrightarrow> elem out j = elem m j + elem s j"
      by (simp add: out bview_in_shape)
    from r m s so sz sy e show ?thesis by blast
  qed
  show ?thesis
    by (intro conjI impI res_shortcut_eq a c priv_res_block_None)
qed

theorem res_block_shortcut_witness:
  "(1::int) \<le> 3 \<and>
   res_shortcut zero_block demo_image 2 channels_last True
     = tf_conv2d_same (b_proj zero_block) demo_image 2 1 False channels_last \<and>
   res_shortcut zero_block demo_image 1 channels_last True = Some demo_image \<and>
   (\<exists>out m s. priv_res_block zero_block demo_image 2 3 channels_last True True True = Some out \<and>
      res_main zero_block demo_image 2 3 channels_last True True True = Some m \<and>
      res_shortcut zero_block demo_image 2 channels_last True = Some s \<and>
      shape out = (1, 2, 2, 2) \<and>
      elem out (0, 0, 0, 0) = elem m (0, 0, 0, 0) + elem s (0, 0, 0, 0)) \<and>
   priv_res_block zero_block demo_image 0 3 channels_last True True True = None"
proof -
  have k: "True \<longrightarrow> (1::int) \<le> 3" by simp
  have c: "get_ax (axis_c channels_last) (shape demo_image) = 1"
    and sh: "set_ax (axis_c channels_last) (nat 2) (shape demo_image) = (1, 2, 2, 2)"
    by (simp_all add: demo_image_def axis_defs)
  note t2 = res_block_shortcut[OF k, where bp = zero_block and x = demo_image and f = 2
      and fmt = channels_last and bnorm = True and tr = True]
  note t1 = res_block_shortcut[OF k, where bp = zero_block and x = demo_image and f = 1
      and fmt = channels_last and bnorm = True and tr = True]
  note t0 = res_block_shortcut[OF k, where bp = zero_block and x = demo_image and f = 0
      and fmt = channels_last and bnorm = True and tr = True]
  from t2[where i = "(0, 0, 0, 0)", THEN conjunct1]
  have a: "res_shortcut zero_block demo_image 2 channels_last True
     = tf_conv2d_same (b_proj zero_block) demo_image 2 1 False channels_last"
    by (simp add: c)
  from t1[where i = "(0, 0, 0, 0)", THEN conjunct1]
  have b: "res_shortcut zero_block demo_image 1 channels_last True = Some demo_image"
    by (simp add: c)
  from t0[where i = "(0, 0, 0, 0)", THEN conjunct2, THEN conjunct2, THEN conjunct2]
  have z: "priv_res_block zero_block demo_image 0 3 channels_last True True True = None"
    by simp
  have f2: "(1::int) \<le> 2" by simp
  from t2[where i = "(0, 0, 0, 0)", THEN conjunct2, THEN conjunct2, THEN conjunct1,
      rule_format, OF f2]
  obtain out m s where
    o: "priv_res_block zero_block demo_image 2 3 channels_last True True True = Some out"
    and m: "res_main zero_block demo_image 2 3 channels_last True True True = Some m"
    and s: "res_shortcut zero_block demo_image 2 channels_last True = Some s"
    and so: "shape out = set_ax (axis_c channels_last) (nat 2) (shape demo_image)"
    and e: "\<forall>j. in_shape (shape out) j \<longrightarrow> elem out j = elem m j + elem s j"
    by blast
  from so have so': "shape out = (1, 2, 2, 2)" by (simp only: sh)
  from e so' have e': "elem out (0, 0, 0, 0) = elem m (0, 0, 0, 0) + elem s (0, 0, 0, 0)"
    by simp
  have k3: "(1::int) \<le> 3" by simp
  have ex: "\<exists>out m s. priv_res_block zero_block demo_image 2 3 channels_last True True True
                = Some out \<and>
      res_main zero_block demo_image 2 3 channels_last True True True = Some m \<and>
      res_shortcut zero_block demo_image 2 channels_last True = Some s \<and>
      shape out = (1, 2, 2, 2) \<and>
      elem out (0, 0, 0, 0) = elem m (0, 0, 0, 0) + elem s (0, 0, 0, 0)"
    using o m s so' e' by blast
  show ?thesis
    by (intro conjI k3 a b ex z)
qed

section \<open>The prior network\<close>







end
